theory Spec2Isabelle
  imports Main "HOL-Library.AList"
begin

section \<open>Data model of the guess-number service (main.py)\<close>

text \<open>
  The game dictionary built by \<open>create_game\<close>, the per-player dictionary held in
  \<open>stats\<close>, and the two response models. Python integers are unbounded, hence \<open>int\<close>.
  A Python \<open>str\<close> is a \<open>string\<close>: a list of characters, each a code point below 256.
\<close>

record game =
  secret_number :: int
  number_range :: int
  max_attempts :: int
  attempts_used :: int
  is_over :: bool
  player_name :: string

record player_record =
  wins :: int
  losses :: int

record guess_response =
  result :: string
  attempts_left :: int
  correct_number :: "int option"

text \<open>\<open>StartGameResponse\<close>; its fields carry a prefix because \<open>game\<close> has the same names.\<close>

record start_game_response =
  game_id :: string
  resp_number_range :: int
  resp_max_attempts :: int

text \<open>The dictionary returned by \<open>get_player_stats_data\<close>.\<close>

record player_stats_data =
  data_player_name :: string
  data_wins :: int
  data_losses :: int

text \<open>
  The exceptions the code raises: \<open>ValueError\<close> (its message is never read) and
  \<open>HTTPException(status_code, detail)\<close>.
\<close>

datatype error = ValueError | HTTPException int string

text \<open>
  The process state: the two module-level dictionaries and the file \<open>scores.txt\<close>
  (\<open>None\<close> while it does not exist). \<open>stats\<close> is an association list in insertion
  order, the order in which \<open>save_stats\<close> iterates over the dictionary.
\<close>

type_synonym ledger = "(string \<times> player_record) list"

record state =
  games :: "string \<rightharpoonup> game"
  stats :: ledger
  scores_txt :: "string option"

section \<open>Python string primitives used by the stats helpers\<close>

text \<open>\<open>str.isspace\<close> on one character, for code points below 256.\<close>

definition py_isspace :: "char \<Rightarrow> bool" where
  "py_isspace c =
     (let n = (of_char c :: nat)
      in (9 \<le> n \<and> n \<le> 13) \<or> (28 \<le> n \<and> n \<le> 32) \<or> n = 133 \<or> n = 160)"

text \<open>Dropping the characters of a class at both ends of a string.\<close>

definition strip_chars :: "(char \<Rightarrow> bool) \<Rightarrow> string \<Rightarrow> string" where
  "strip_chars p s = rev (dropWhile p (rev (dropWhile p s)))"

text \<open>\<open>s.strip()\<close>\<close>

definition strip :: "string \<Rightarrow> string" where
  "strip s = strip_chars py_isspace s"

text \<open>\<open>s.split(sep)\<close> for a separator of one character.\<close>

fun split_str :: "char \<Rightarrow> string \<Rightarrow> string list" where
  "split_str sep [] = [[]]"
| "split_str sep (c # cs) =
     (if c = sep then [] # split_str sep cs
      else (case split_str sep cs of
              [] \<Rightarrow> [[c]]
            | w # ws \<Rightarrow> (c # w) # ws))"

text \<open>Decimal digits of a natural number, as \<open>"%d"\<close> and \<open>str\<close> print them.\<close>

definition digit_char :: "nat \<Rightarrow> char" where
  "digit_char d = char_of (48 + d)"

function str_of_nat :: "nat \<Rightarrow> string" where
  "str_of_nat n =
     (if n < 10 then [digit_char n] else str_of_nat (n div 10) @ [digit_char (n mod 10)])"
  by pat_completeness auto
termination
  by (relation "measure id") auto

declare str_of_nat.simps [simp del]

text \<open>\<open>"%d" % i\<close>, also \<open>str(i)\<close> inside an f-string.\<close>

definition str_of_int :: "int \<Rightarrow> string" where
  "str_of_int i = (if i < 0 then CHR ''-'' # str_of_nat (nat (- i)) else str_of_nat (nat i))"

text \<open>
  \<open>int(s)\<close> in base 10: surrounding whitespace is dropped, one sign is allowed, then
  digits, where single underscores may stand between digits. Anything else raises
  \<open>ValueError\<close>. The whitespace \<open>int\<close> drops is narrower than that of \<open>strip\<close>: the
  separators with code points 28 to 31 are not accepted. The interpreter's limit on the
  number of digits of a conversion is not modelled.
\<close>

definition int_isspace :: "char \<Rightarrow> bool" where
  "int_isspace c =
     (let n = (of_char c :: nat)
      in (9 \<le> n \<and> n \<le> 13) \<or> n = 32 \<or> n = 133 \<or> n = 160)"

definition is_digit :: "char \<Rightarrow> bool" where
  "is_digit c = (48 \<le> (of_char c :: nat) \<and> (of_char c :: nat) \<le> 57)"

definition digit_val :: "char \<Rightarrow> nat" where
  "digit_val c = of_char c - 48"

fun valid_digits :: "string \<Rightarrow> bool" where
  "valid_digits [] = False"
| "valid_digits [c] = is_digit c"
| "valid_digits (c # d # cs) =
     (is_digit c \<and> (if d = CHR ''_'' then valid_digits cs else valid_digits (d # cs)))"

definition nat_of_digits :: "string \<Rightarrow> nat" where
  "nat_of_digits ds = foldl (\<lambda>a c. 10 * a + digit_val c) 0 (filter (\<lambda>c. c \<noteq> CHR ''_'') ds)"

definition py_int :: "string \<Rightarrow> error + int" where
  "py_int s =
     (let t = strip_chars int_isspace s;
          neg = (t \<noteq> [] \<and> hd t = CHR ''-'');
          body = (if t \<noteq> [] \<and> (hd t = CHR ''-'' \<or> hd t = CHR ''+'') then tl t else t)
      in if valid_digits body
         then Inr (if neg then - int (nat_of_digits body) else int (nat_of_digits body))
         else Inl ValueError)"

text \<open>
  Reading a text file line by line. Universal newlines turn \<open>\r\n\<close> and \<open>\r\<close> into
  \<open>\n\<close>; iteration then yields the lines, each with its terminating \<open>\n\<close>.
\<close>

definition LF :: char where
  "LF = CHR 0x0A"

definition CR :: char where
  "CR = CHR 0x0D"

fun universal_newlines :: "string \<Rightarrow> string" where
  "universal_newlines [] = []"
| "universal_newlines [c] = [if c = CR then LF else c]"
| "universal_newlines (c # d # cs) =
     (if c = CR then (if d = LF then LF # universal_newlines cs
                      else LF # universal_newlines (d # cs))
      else c # universal_newlines (d # cs))"

fun lines_of :: "string \<Rightarrow> string list" where
  "lines_of [] = []"
| "lines_of (c # cs) =
     (if c = LF then [c] # lines_of cs
      else (case lines_of cs of
              [] \<Rightarrow> [[c]]
            | l # ls \<Rightarrow> (c # l) # ls))"

definition file_lines :: "string \<Rightarrow> string list" where
  "file_lines text = lines_of (universal_newlines text)"

section \<open>Stats helpers\<close>

text \<open>
  The loop body of \<open>load_stats\<close>: blank lines are skipped; a line that does not split
  into three fields makes the tuple assignment raise \<open>ValueError\<close>, and so does a
  count that \<open>int\<close> rejects. \<open>data[name] = ...\<close> replaces the value of a present key
  and appends an absent one.
\<close>

fun load_lines :: "string list \<Rightarrow> ledger \<Rightarrow> error + ledger" where
  "load_lines [] data = Inr data"
| "load_lines (l # ls) data =
     (let line = strip l
      in if line = [] then load_lines ls data
         else (case split_str (CHR '';'') line of
                 [name, wins_str, losses_str] \<Rightarrow>
                   (case py_int wins_str of
                      Inl e \<Rightarrow> Inl e
                    | Inr w \<Rightarrow>
                        (case py_int losses_str of
                           Inl e \<Rightarrow> Inl e
                         | Inr lo \<Rightarrow>
                             load_lines ls
                               (AList.update name \<lparr>wins = w, losses = lo\<rparr> data)))
               | _ \<Rightarrow> Inl ValueError))"

text \<open>\<open>load_stats\<close>: a missing file (\<open>FileNotFoundError\<close>) gives the empty dictionary.\<close>

definition load_stats :: "string option \<Rightarrow> error + ledger" where
  "load_stats file =
     (case file of
        None \<Rightarrow> Inr []
      | Some text \<Rightarrow> load_lines (file_lines text) [])"

text \<open>One line written by \<open>save_stats\<close>: \<open>"%s;%d;%d\n"\<close>.\<close>

definition stats_line :: "string \<times> player_record \<Rightarrow> string" where
  "stats_line e =
     fst e @ '';'' @ str_of_int (wins (snd e)) @ '';'' @ str_of_int (losses (snd e)) @ [LF]"

definition ledger_text :: "ledger \<Rightarrow> string" where
  "ledger_text l = concat (map stats_line l)"

text \<open>\<open>save_stats\<close> opens the file with mode \<open>"w"\<close>: the old content is replaced.\<close>

definition save_stats :: "state \<Rightarrow> state" where
  "save_stats st = st\<lparr>scores_txt := Some (ledger_text (stats st))\<rparr>"

definition ensure_player_stats :: "string \<Rightarrow> state \<Rightarrow> state" where
  "ensure_player_stats name st =
     (if name \<notin> fst ` set (stats st)
      then st\<lparr>stats := AList.update name \<lparr>wins = 0, losses = 0\<rparr> (stats st)\<rparr>
      else st)"

definition record_result :: "string \<Rightarrow> string \<Rightarrow> state \<Rightarrow> state" where
  "record_result name res st =
     (let st1 = ensure_player_stats name st;
          st2 = (if res = ''win''
                 then st1\<lparr>stats := AList.map_entry name (\<lambda>r. r\<lparr>wins := wins r + 1\<rparr>) (stats st1)\<rparr>
                 else if res = ''lose''
                 then st1\<lparr>stats := AList.map_entry name (\<lambda>r. r\<lparr>losses := losses r + 1\<rparr>) (stats st1)\<rparr>
                 else st1)
      in save_stats st2)"

text \<open>
  Process start: \<open>games = {}\<close> and \<open>stats = load_stats()\<close>. An exception of
  \<open>load_stats\<close> ends the import of the module.
\<close>

definition startup :: "string option \<Rightarrow> error + state" where
  "startup file =
     (case load_stats file of
        Inl e \<Rightarrow> Inl e
      | Inr data \<Rightarrow> Inr \<lparr>games = Map.empty, stats = data, scores_txt = file\<rparr>)"

section \<open>Core game logic\<close>

definition check_guess :: "int \<Rightarrow> int \<Rightarrow> string" where
  "check_guess secret guess =
     (if guess > secret then ''too_high''
      else if guess < secret then ''too_low''
      else ''correct'')"

definition choose_difficulty_from_number :: "int \<Rightarrow> error + int \<times> int" where
  "choose_difficulty_from_number difficulty =
     (if difficulty = 1 then Inr (10, 5)
      else if difficulty = 2 then Inr (20, 4)
      else if difficulty = 3 then Inr (50, 3)
      else Inl ValueError)"

text \<open>
  \<open>random.randint(a, b)\<close>: the generator's draw is the argument \<open>rnd\<close>; every value of
  \<open>[a, b]\<close> is the result for some draw.
\<close>

definition randint :: "nat \<Rightarrow> int \<Rightarrow> int \<Rightarrow> int" where
  "randint rnd a b = a + int (rnd mod nat (b - a + 1))"

text \<open>
  \<open>create_game\<close>. The arguments \<open>rnd\<close> and \<open>gid\<close> stand for the draw of
  \<open>random.randint\<close> and for \<open>uuid.uuid4().hex\<close>. The \<open>ValueError\<close> of an invalid
  difficulty is re-raised before anything is touched.
\<close>

definition create_game ::
  "int \<Rightarrow> string \<Rightarrow> nat \<Rightarrow> string \<Rightarrow> state \<Rightarrow> (error + start_game_response) \<times> state" where
  "create_game difficulty name rnd gid st =
     (case choose_difficulty_from_number difficulty of
        Inl e \<Rightarrow> (Inl e, st)
      | Inr (nr, ma) \<Rightarrow>
          (let secret = randint rnd 1 nr;
               st1 = ensure_player_stats name st;
               st2 = st1\<lparr>games := (games st1)(gid \<mapsto>
                        \<lparr>secret_number = secret, number_range = nr, max_attempts = ma,
                         attempts_used = 0, is_over = False, player_name = name\<rparr>)\<rparr>
           in (Inr \<lparr>game_id = gid, resp_number_range = nr, resp_max_attempts = ma\<rparr>, st2)))"

definition get_game_or_404 :: "string \<Rightarrow> state \<Rightarrow> error + game" where
  "get_game_or_404 gid st =
     (case games st gid of
        None \<Rightarrow> Inl (HTTPException 404 ''Game not found'')
      | Some g \<Rightarrow> Inr g)"

text \<open>
  \<open>apply_guess_to_game\<close> mutates the dictionary it is given and, through
  \<open>record_result\<close>, the globals. The model returns the response (or the exception), the
  game as it is afterwards, and the state as it is afterwards.
\<close>

definition apply_guess_to_game ::
  "game \<Rightarrow> int \<Rightarrow> state \<Rightarrow> (error + guess_response) \<times> game \<times> state" where
  "apply_guess_to_game g guess st =
     (if is_over g then
        (Inr \<lparr>result = ''game_over'',
              attempts_left = max_attempts g - attempts_used g,
              correct_number = Some (secret_number g)\<rparr>, g, st)
      else if guess < 1 \<or> guess > number_range g then
        (Inl (HTTPException 400
               (''Guess must be between 1 and '' @ str_of_int (number_range g))), g, st)
      else
        (let g1 = g\<lparr>attempts_used := attempts_used g + 1\<rparr>;
             basic_result = check_guess (secret_number g1) guess;
             remaining = max_attempts g1 - attempts_used g1
         in if basic_result = ''correct'' then
              (let g2 = g1\<lparr>is_over := True\<rparr>
               in (Inr \<lparr>result = ''win'', attempts_left = remaining,
                        correct_number = Some (secret_number g2)\<rparr>,
                   g2, record_result (player_name g2) ''win'' st))
            else if remaining \<le> 0 then
              (let g2 = g1\<lparr>is_over := True\<rparr>
               in (Inr \<lparr>result = ''lose'', attempts_left = 0,
                        correct_number = Some (secret_number g2)\<rparr>,
                   g2, record_result (player_name g2) ''lose'' st))
            else
              (Inr \<lparr>result = basic_result, attempts_left = remaining,
                    correct_number = None\<rparr>, g1, st)))"

definition get_player_stats_data :: "string \<Rightarrow> state \<Rightarrow> (error + player_stats_data) \<times> state" where
  "get_player_stats_data name st =
     (case map_of (stats st) name of
        None \<Rightarrow> (Inl (HTTPException 404 ''Player not found''), st)
      | Some r \<Rightarrow>
          (Inr \<lparr>data_player_name = name, data_wins = wins r, data_losses = losses r\<rparr>, st))"

section \<open>Endpoints\<close>

text \<open>\<open>POST /start-game\<close>: a \<open>ValueError\<close> becomes status 400.\<close>

definition start_game ::
  "int \<Rightarrow> string \<Rightarrow> nat \<Rightarrow> string \<Rightarrow> state \<Rightarrow> (error + start_game_response) \<times> state" where
  "start_game difficulty name rnd gid st =
     (case create_game difficulty name rnd gid st of
        (Inl ValueError, st') \<Rightarrow>
          (Inl (HTTPException 400 ''Invalid difficulty. Use 1, 2, or 3.''), st')
      | r \<Rightarrow> r)"

text \<open>
  \<open>POST /check-guess\<close>. The dictionary handed to \<open>apply_guess_to_game\<close> is the object
  stored under \<open>game_id\<close>, so what the call does to it is what the registry holds
  afterwards.
\<close>

definition check_guess_endpoint ::
  "string \<Rightarrow> int \<Rightarrow> state \<Rightarrow> (error + guess_response) \<times> state" where
  "check_guess_endpoint gid guess st =
     (case get_game_or_404 gid st of
        Inl e \<Rightarrow> (Inl e, st)
      | Inr g \<Rightarrow>
          (case apply_guess_to_game g guess st of
             (r, g', st') \<Rightarrow> (r, st'\<lparr>games := (games st')(gid \<mapsto> g')\<rparr>)))"

text \<open>\<open>GET /stats/{player_name}\<close>\<close>

definition get_player_stats :: "string \<Rightarrow> state \<Rightarrow> (error + player_stats_data) \<times> state" where
  "get_player_stats name st = get_player_stats_data name st"

text \<open>\<open>GET /\<close> and \<open>POST /greet\<close>: a message, and no access to the state.\<close>

definition read_root :: string where
  "read_root = ''Hello, this is my first API!''"

definition greet :: "string \<Rightarrow> string" where
  "greet name = ''Hello, '' @ name @ ''!''"

text \<open>The requests of the five routes, and the state after serving one.\<close>

datatype request =
  Root
| Greet string
| StartGame int string nat string
| CheckGuess string int
| GetStats string

fun serve :: "request \<Rightarrow> state \<Rightarrow> state" where
  "serve Root st = st"
| "serve (Greet name) st = st"
| "serve (StartGame difficulty name rnd gid) st = snd (start_game difficulty name rnd gid st)"
| "serve (CheckGuess gid guess) st = snd (check_guess_endpoint gid guess st)"
| "serve (GetStats name) st = snd (get_player_stats name st)"

text \<open>A client sending guesses one after the other to the same game id.\<close>

fun check_guesses ::
  "string \<Rightarrow> int list \<Rightarrow> state \<Rightarrow> (error + guess_response) list \<times> state" where
  "check_guesses gid [] st = ([], st)"
| "check_guesses gid (x # xs) st =
     (case check_guess_endpoint gid x st of
        (r, st') \<Rightarrow>
          (case check_guesses gid xs st' of
             (rs, st'') \<Rightarrow> (r # rs, st'')))"

text \<open>The state of a process started without a \<open>scores.txt\<close>.\<close>

definition initial_state :: state where
  "initial_state = \<lparr>games = Map.empty, stats = [], scores_txt = None\<rparr>"

text \<open>
  A run used for concrete instances: difficulty 1 for player bob, the draw 6 giving the
  secret 7; then the winning guess.
\<close>

definition started_state :: state where
  "started_state = serve (StartGame 1 ''bob'' 6 ''g1'') initial_state"

definition finished_state :: state where
  "finished_state = serve (CheckGuess ''g1'' 7) started_state"

definition started_game :: game where
  "started_game = \<lparr>secret_number = 7, number_range = 10, max_attempts = 5,
      attempts_used = 0, is_over = False, player_name = ''bob''\<rparr>"

definition finished_game :: game where
  "finished_game = \<lparr>secret_number = 7, number_range = 10, max_attempts = 5,
      attempts_used = 1, is_over = True, player_name = ''bob''\<rparr>"

text \<open>The started game, and a second game for another player.\<close>

definition two_player_state :: state where
  "two_player_state = serve (StartGame 2 ''amy'' 3 ''g2'') started_state"

text \<open>A player whose name begins with a space wins a game.\<close>

definition spaced_name_state :: state where
  "spaced_name_state =
     serve (CheckGuess ''g1'' 7) (serve (StartGame 1 '' al'' 6 ''g1'') initial_state)"

section \<open>Basic facts about the helpers\<close>

lemma startup_without_file: "startup None = Inr initial_state"
  by (simp add: startup_def load_stats_def initial_state_def)

lemma not_in_stats_iff: "name \<notin> fst ` set al \<longleftrightarrow> map_of al name = None"
  by (simp add: map_of_eq_None_iff)

lemma games_ensure_player_stats [simp]: "games (ensure_player_stats name st) = games st"
  by (simp add: ensure_player_stats_def)

lemma scores_txt_ensure_player_stats [simp]:
  "scores_txt (ensure_player_stats name st) = scores_txt st"
  by (simp add: ensure_player_stats_def)

lemma map_of_ensure_player_stats:
  "map_of (stats (ensure_player_stats name st)) =
     (case map_of (stats st) name of
        None \<Rightarrow> (map_of (stats st))(name \<mapsto> \<lparr>wins = 0, losses = 0\<rparr>)
      | Some r \<Rightarrow> map_of (stats st))"
  by (auto simp: ensure_player_stats_def update_conv' not_in_stats_iff split: option.splits)

lemma games_record_result [simp]: "games (record_result name res st) = games st"
  by (simp add: record_result_def save_stats_def Let_def)

lemma randint_in_range:
  assumes "a \<le> b"
  shows "a \<le> randint rnd a b \<and> randint rnd a b \<le> b"
proof -
  from assms have "0 < nat (b - a + 1)" by simp
  then have "rnd mod nat (b - a + 1) < nat (b - a + 1)"
    by (rule mod_less_divisor)
  with assms have "int (rnd mod nat (b - a + 1)) < b - a + 1" by linarith
  then show ?thesis by (simp add: randint_def)
qed

section \<open>Difficulty table\<close>

text \<open>
  Claim C2. Difficulty 1, 2 and 3 give (number_range, max_attempts) = (10, 5), (20, 4)
  and (50, 3). Any other difficulty makes \<open>choose_difficulty_from_number\<close> and
  \<open>create_game\<close> raise \<open>ValueError\<close>, which the endpoint reports with status 400,
  and the state is what it was: no game is created. With a difficulty of the table,
  \<open>create_game\<close> answers with the table's values and stores under the new id a game
  with those values, no attempt used, not over, and a secret in \<open>[1, number_range]\<close>.
\<close>

theorem difficulty_table:
  "(d = 1 \<longrightarrow> choose_difficulty_from_number d = Inr (10, 5)) \<and>
   (d = 2 \<longrightarrow> choose_difficulty_from_number d = Inr (20, 4)) \<and>
   (d = 3 \<longrightarrow> choose_difficulty_from_number d = Inr (50, 3)) \<and>
   (d \<notin> {1, 2, 3} \<longrightarrow>
      choose_difficulty_from_number d = Inl ValueError \<and>
      create_game d name rnd gid st = (Inl ValueError, st) \<and>
      start_game d name rnd gid st =
        (Inl (HTTPException 400 ''Invalid difficulty. Use 1, 2, or 3.''), st)) \<and>
   (\<forall>nr ma. choose_difficulty_from_number d = Inr (nr, ma) \<longrightarrow>
      (\<exists>st' g. create_game d name rnd gid st =
                  (Inr \<lparr>game_id = gid, resp_number_range = nr, resp_max_attempts = ma\<rparr>, st') \<and>
               start_game d name rnd gid st = create_game d name rnd gid st \<and>
               games st' gid = Some g \<and> number_range g = nr \<and> max_attempts g = ma \<and>
               attempts_used g = 0 \<and> \<not> is_over g \<and> player_name g = name \<and>
               1 \<le> secret_number g \<and> secret_number g \<le> nr))"
proof -
  have bad: "d \<notin> {1, 2, 3} \<Longrightarrow> choose_difficulty_from_number d = Inl ValueError"
    by (simp add: choose_difficulty_from_number_def)
  show ?thesis
    using randint_in_range [of 1 _ rnd]
    apply (intro conjI impI allI)
    apply (simp_all add: bad create_game_def start_game_def Let_def)
    apply (simp_all add: choose_difficulty_from_number_def)
    apply (auto split: if_splits)
    done
qed

theorem difficulty_table_witness:
  "choose_difficulty_from_number 1 = Inr (10, 5) \<and>
   choose_difficulty_from_number 2 = Inr (20, 4) \<and>
   choose_difficulty_from_number 3 = Inr (50, 3) \<and>
   (4::int) \<notin> {1, 2, 3} \<and>
   start_game 4 ''bob'' 6 ''g1'' initial_state =
     (Inl (HTTPException 400 ''Invalid difficulty. Use 1, 2, or 3.''), initial_state) \<and>
   (\<exists>st' g. create_game 1 ''bob'' 6 ''g1'' initial_state =
              (Inr \<lparr>game_id = ''g1'', resp_number_range = 10, resp_max_attempts = 5\<rparr>, st') \<and>
            games st' ''g1'' = Some g \<and> number_range g = 10 \<and> max_attempts g = 5)"
  using difficulty_table [of 1 "''bob''" 6 "''g1''" initial_state]
    difficulty_table [of 2 "''bob''" 6 "''g1''" initial_state]
    difficulty_table [of 3 "''bob''" 6 "''g1''" initial_state]
    difficulty_table [of 4 "''bob''" 6 "''g1''" initial_state]
  by auto

section \<open>What a guess does to the state\<close>

lemma map_of_record_result:
  "map_of (stats (record_result name res st)) =
     (map_of (stats st))(name \<mapsto>
        (let r = (case map_of (stats st) name of None \<Rightarrow> \<lparr>wins = 0, losses = 0\<rparr> | Some r \<Rightarrow> r)
         in if res = ''win'' then r\<lparr>wins := wins r + 1\<rparr>
            else if res = ''lose'' then r\<lparr>losses := losses r + 1\<rparr>
            else r))"
  by (auto simp add: record_result_def save_stats_def Let_def map_of_map_entry
      map_of_ensure_player_stats fun_eq_iff split: option.splits)

lemma scores_txt_record_result:
  "scores_txt (record_result name res st) =
     Some (ledger_text (stats (record_result name res st)))"
  by (simp add: record_result_def save_stats_def Let_def)

lemma apply_guess_to_game_state:
  "apply_guess_to_game g guess st = (r, g', st') \<Longrightarrow>
     (st' = st \<and> (\<forall>resp. r = Inr resp \<longrightarrow> result resp \<notin> {''win'', ''lose''})) \<or>
     (\<exists>resp res. r = Inr resp \<and> result resp = res \<and> res \<in> {''win'', ''lose''} \<and>
        st' = record_result (player_name g) res st)"
  by (auto simp add: apply_guess_to_game_def check_guess_def Let_def split: if_splits)

lemma apply_guess_to_game_fields:
  "apply_guess_to_game g guess st = (r, g', st') \<Longrightarrow>
     g' = g\<lparr>attempts_used := attempts_used g', is_over := is_over g'\<rparr>"
  by (auto simp add: apply_guess_to_game_def check_guess_def Let_def split: if_splits)

lemma check_guess_endpoint_records:
  assumes "games st gid = Some g" and "check_guess_endpoint gid guess st = (Inr resp, st')"
    and "result resp \<in> {''win'', ''lose''}"
  shows "stats st' = stats (record_result (player_name g) (result resp) st) \<and>
         scores_txt st' = Some (ledger_text (stats st'))"
proof -
  obtain g' st1 where ap: "apply_guess_to_game g guess st = (Inr resp, g', st1)"
    and st': "st' = st1\<lparr>games := (games st1)(gid \<mapsto> g')\<rparr>"
    using assms
    by (auto simp add: check_guess_endpoint_def get_game_or_404_def split: prod.splits)
  from apply_guess_to_game_state [OF ap] assms(3)
  have "st1 = record_result (player_name g) (result resp) st" by auto
  then show ?thesis
    by (simp add: st' scores_txt_record_result)
qed

lemma stats_after_record_result:
  assumes "map_of (stats st) name = Some r"
  shows "\<exists>r'. map_of (stats (record_result p res st)) name = Some r' \<and>
              wins r \<le> wins r' \<and> losses r \<le> losses r'"
  using assms by (auto simp add: map_of_record_result Let_def)

lemma stats_after_ensure:
  assumes "map_of (stats st) name = Some r"
  shows "map_of (stats (ensure_player_stats p st)) name = Some r"
  using assms by (auto simp add: map_of_ensure_player_stats split: option.splits)

lemma stats_after_serve:
  assumes "map_of (stats st) name = Some r"
  shows "\<exists>r'. map_of (stats (serve req st)) name = Some r' \<and>
              wins r \<le> wins r' \<and> losses r \<le> losses r'"
proof (cases req)
  case (StartGame d p rnd gid)
  have "stats (serve req st) = stats st \<or> stats (serve req st) = stats (ensure_player_stats p st)"
    by (auto simp add: StartGame start_game_def create_game_def Let_def
        split: sum.splits prod.splits error.splits)
  then show ?thesis
    using assms stats_after_ensure [OF assms, of p] by auto
next
  case (CheckGuess gid guess)
  show ?thesis
  proof (cases "games st gid")
    case None
    then show ?thesis
      using assms by (simp add: CheckGuess check_guess_endpoint_def get_game_or_404_def)
  next
    case (Some g)
    obtain r0 g' st1 where ap: "apply_guess_to_game g guess st = (r0, g', st1)"
      by (cases "apply_guess_to_game g guess st") auto
    then have eq: "stats (serve req st) = stats st1"
      by (simp add: CheckGuess Some check_guess_endpoint_def get_game_or_404_def)
    from apply_guess_to_game_state [OF ap]
    have "st1 = st \<or> (\<exists>res. st1 = record_result (player_name g) res st)" by auto
    then show ?thesis
      using assms stats_after_record_result [OF assms] by (auto simp add: eq)
  qed
next
  case (GetStats p)
  then show ?thesis
    using assms by (simp add: get_player_stats_def get_player_stats_data_def split: option.splits)
next
  case Root
  with assms show ?thesis by simp
next
  case (Greet n)
  with assms show ?thesis by simp
qed

lemma stats_after_requests:
  assumes "map_of (stats st) name = Some r"
  shows "\<exists>r'. map_of (stats (fold serve reqs st)) name = Some r' \<and>
              wins r \<le> wins r' \<and> losses r \<le> losses r'"
  using assms
proof (induction reqs arbitrary: st r)
  case Nil
  then show ?case by simp
next
  case (Cons req reqs)
  from stats_after_serve [OF Cons.prems, of req]
  obtain r1 where r1: "map_of (stats (serve req st)) name = Some r1"
    and le1: "wins r \<le> wins r1" "losses r \<le> losses r1" by blast
  from Cons.IH [OF r1]
  obtain r' where "map_of (stats (fold serve reqs (serve req st))) name = Some r'"
    and "wins r1 \<le> wins r'" "losses r1 \<le> losses r'" by blast
  with le1 show ?case by fastforce
qed

section \<open>The concrete run\<close>

lemma state_games_triv: "games st gid = Some g \<Longrightarrow> st\<lparr>games := (games st)(gid \<mapsto> g)\<rparr> = st"
  by (simp add: map_upd_triv)

lemma str_of_int_10: "str_of_int 10 = ''10''"
  by (simp add: str_of_int_def str_of_nat.simps digit_char_def char_of_eq_iff)

lemma started_state_eq:
  "started_state = \<lparr>games = [''g1'' \<mapsto> started_game],
      stats = [(''bob'', \<lparr>wins = 0, losses = 0\<rparr>)], scores_txt = None\<rparr>"
  by (simp add: started_state_def started_game_def initial_state_def start_game_def create_game_def
       choose_difficulty_from_number_def randint_def ensure_player_stats_def Let_def)

lemma finished_state_eq:
  "finished_state = \<lparr>games = [''g1'' \<mapsto> finished_game],
      stats = [(''bob'', \<lparr>wins = 1, losses = 0\<rparr>)],
      scores_txt = Some (''bob;1;0'' @ [LF])\<rparr>"
  by (simp add: finished_state_def started_state_eq started_game_def finished_game_def
       check_guess_endpoint_def get_game_or_404_def
       apply_guess_to_game_def check_guess_def Let_def record_result_def ensure_player_stats_def
       save_stats_def ledger_text_def stats_line_def str_of_int_def str_of_nat.simps digit_char_def char_of_eq_iff)

lemma two_player_state_eq:
  "two_player_state = \<lparr>games = [''g1'' \<mapsto> started_game, ''g2'' \<mapsto>
       \<lparr>secret_number = 4, number_range = 20, max_attempts = 4,
        attempts_used = 0, is_over = False, player_name = ''amy''\<rparr>],
      stats = [(''bob'', \<lparr>wins = 0, losses = 0\<rparr>), (''amy'', \<lparr>wins = 0, losses = 0\<rparr>)],
      scores_txt = None\<rparr>"
  by (simp add: two_player_state_def started_state_eq start_game_def create_game_def
       choose_difficulty_from_number_def randint_def ensure_player_stats_def Let_def)

section \<open>Guesses on a finished game\<close>

text \<open>
  Claim C3. On a game whose \<open>is_over\<close> flag is set, \<open>apply_guess_to_game\<close> answers
  \<open>game_over\<close> with attempts_left = max_attempts - attempts_used and the secret, for
  any guess; the game and the state (all stats records and the file) are what they were,
  so a further call gives the same answer. The same holds for the endpoint on the
  registry.
\<close>

theorem finished_game_replay:
  assumes "is_over g"
  shows "apply_guess_to_game g guess st =
           (Inr \<lparr>result = ''game_over'',
                 attempts_left = max_attempts g - attempts_used g,
                 correct_number = Some (secret_number g)\<rparr>, g, st) \<and>
         (case apply_guess_to_game g guess st of
            (r, g', st') \<Rightarrow> g' = g \<and> st' = st \<and> apply_guess_to_game g' guess' st' = (r, g', st')) \<and>
         (games st gid = Some g \<longrightarrow>
            check_guess_endpoint gid guess st =
              (Inr \<lparr>result = ''game_over'',
                    attempts_left = max_attempts g - attempts_used g,
                    correct_number = Some (secret_number g)\<rparr>, st) \<and>
            check_guess_endpoint gid guess' (snd (check_guess_endpoint gid guess st)) =
              check_guess_endpoint gid guess st)"
  using assms
  by (simp add: apply_guess_to_game_def check_guess_endpoint_def get_game_or_404_def
      state_games_triv)

theorem finished_game_replay_witness:
  "is_over finished_game \<and> games finished_state ''g1'' = Some finished_game \<and>
   check_guess_endpoint ''g1'' 3 finished_state =
     (Inr \<lparr>result = ''game_over'', attempts_left = 4, correct_number = Some 7\<rparr>,
      finished_state) \<and>
   check_guess_endpoint ''g1'' 0 (snd (check_guess_endpoint ''g1'' 3 finished_state)) =
     check_guess_endpoint ''g1'' 3 finished_state"
proof -
  have a: "is_over finished_game"
    by (simp add: finished_game_def)
  have b: "games finished_state ''g1'' = Some finished_game"
    by (simp add: finished_state_eq)
  from finished_game_replay [OF a, of 3 finished_state 0 "''g1''"] b
  have c: "check_guess_endpoint ''g1'' 3 finished_state =
      (Inr \<lparr>result = ''game_over'',
            attempts_left = max_attempts finished_game - attempts_used finished_game,
            correct_number = Some (secret_number finished_game)\<rparr>, finished_state)"
    and d: "check_guess_endpoint ''g1'' 0 (snd (check_guess_endpoint ''g1'' 3 finished_state)) =
      check_guess_endpoint ''g1'' 3 finished_state"
    by blast+
  from a b c d show ?thesis
    by (simp add: finished_game_def)
qed

section \<open>Guesses outside the range\<close>

text \<open>
  Claim C4. On a game that is not over, a guess below 1 or above number_range makes
  \<open>apply_guess_to_game\<close> raise the HTTP exception with status 400; the game and the
  state are returned as they were, so attempts_used is not incremented.
\<close>

theorem invalid_guess_rejected:
  assumes "\<not> is_over g" and "guess < 1 \<or> guess > number_range g"
  shows "apply_guess_to_game g guess st =
           (Inl (HTTPException 400
                  (''Guess must be between 1 and '' @ str_of_int (number_range g))), g, st) \<and>
         attempts_used (fst (snd (apply_guess_to_game g guess st))) = attempts_used g"
  using assms by (auto simp add: apply_guess_to_game_def)

theorem invalid_guess_rejected_witness:
  "\<not> is_over started_game \<and> 11 > number_range started_game \<and>
   apply_guess_to_game started_game 11 started_state =
     (Inl (HTTPException 400 ''Guess must be between 1 and 10''), started_game, started_state) \<and>
   apply_guess_to_game started_game 0 started_state =
     (Inl (HTTPException 400 ''Guess must be between 1 and 10''), started_game, started_state)"
  using invalid_guess_rejected [of started_game 11 started_state]
    invalid_guess_rejected [of started_game 0 started_state]
  by (simp add: started_game_def str_of_int_10)

text \<open>
  Claim C5, as stated: every request with an existing game and a guess outside the range
  gets status 400, also when the game is over. On the finished game of the concrete run
  the guess 0 is answered with \<open>game_over\<close>, not with an exception.
\<close>

theorem out_of_range_on_finished_game:
  "games finished_state ''g1'' = Some finished_game \<and>
   (0::int) < 1 \<and>
   fst (check_guess_endpoint ''g1'' 0 finished_state) =
     Inr \<lparr>result = ''game_over'', attempts_left = 4, correct_number = Some 7\<rparr>"
  by (simp add: finished_state_eq finished_game_def check_guess_endpoint_def get_game_or_404_def
      apply_guess_to_game_def)

text \<open>
  Claim C5, amended. For an existing game and a guess outside \<open>[1, number_range]\<close>:
  while the game is not over the request gets status 400 and the state is unchanged;
  once the game is over the request is answered with \<open>game_over\<close>, since that check
  comes first.
\<close>

theorem check_guess_endpoint_out_of_range:
  assumes "games st gid = Some g" and "guess < 1 \<or> guess > number_range g"
  shows "check_guess_endpoint gid guess st =
           (if is_over g
            then (Inr \<lparr>result = ''game_over'',
                        attempts_left = max_attempts g - attempts_used g,
                        correct_number = Some (secret_number g)\<rparr>, st)
            else (Inl (HTTPException 400
                        (''Guess must be between 1 and '' @ str_of_int (number_range g))), st))"
  using assms
  by (auto simp add: check_guess_endpoint_def get_game_or_404_def apply_guess_to_game_def
      state_games_triv)

theorem check_guess_endpoint_out_of_range_witness:
  "games started_state ''g1'' = Some started_game \<and> 11 > number_range started_game \<and>
   check_guess_endpoint ''g1'' 11 started_state =
     (Inl (HTTPException 400 ''Guess must be between 1 and 10''), started_state) \<and>
   games finished_state ''g1'' = Some finished_game \<and> 11 > number_range finished_game \<and>
   check_guess_endpoint ''g1'' 11 finished_state =
     (Inr \<lparr>result = ''game_over'', attempts_left = 4, correct_number = Some 7\<rparr>, finished_state)"
proof -
  have a: "games started_state ''g1'' = Some started_game"
    by (simp add: started_state_eq)
  have b: "games finished_state ''g1'' = Some finished_game"
    by (simp add: finished_state_eq)
  have c: "(11::int) < 1 \<or> 11 > number_range started_game"
    by (simp add: started_game_def)
  have d: "(11::int) < 1 \<or> 11 > number_range finished_game"
    by (simp add: finished_game_def)
  show ?thesis
    using a b check_guess_endpoint_out_of_range [OF a c] check_guess_endpoint_out_of_range [OF b d]
    by (simp add: started_game_def finished_game_def str_of_int_10)
qed

section \<open>Creation of player records\<close>

text \<open>
  Claim C8, as stated: the first stats query for a name creates a zeroed record. In the
  initial state the query for bob raises status 404 and the ledger still has no record
  for bob.
\<close>

theorem stats_query_creates_nothing:
  "map_of (stats initial_state) ''bob'' = None \<and>
   get_player_stats ''bob'' initial_state =
     (Inl (HTTPException 404 ''Player not found''), initial_state) \<and>
   map_of (stats (snd (get_player_stats ''bob'' initial_state))) ''bob'' = None"
  by (simp add: get_player_stats_def get_player_stats_data_def initial_state_def)

text \<open>
  Claim C8, amended. For a name without a record: a game start with difficulty 1, 2 or 3
  adds a zeroed record for that name and changes no other record; a game start with
  another difficulty changes nothing; a stats query raises status 404 and changes
  nothing. For a name with a record, neither a game start nor a stats query changes the
  ledger.
\<close>

theorem lazy_player_record:
  "(map_of (stats st) name = None \<longrightarrow>
      (d \<in> {1, 2, 3} \<longrightarrow>
         map_of (stats (snd (start_game d name rnd gid st))) =
           (map_of (stats st))(name \<mapsto> \<lparr>wins = 0, losses = 0\<rparr>)) \<and>
      (d \<notin> {1, 2, 3} \<longrightarrow> snd (start_game d name rnd gid st) = st) \<and>
      get_player_stats name st = (Inl (HTTPException 404 ''Player not found''), st)) \<and>
   (map_of (stats st) name \<noteq> None \<longrightarrow>
      stats (snd (start_game d name rnd gid st)) = stats st \<and>
      snd (get_player_stats name st) = st)"
  by (auto simp add: start_game_def create_game_def choose_difficulty_from_number_def Let_def
      map_of_ensure_player_stats get_player_stats_def get_player_stats_data_def
      ensure_player_stats_def not_in_stats_iff update_conv')

theorem lazy_player_record_witness:
  "map_of (stats initial_state) ''bob'' = None \<and> (1::int) \<in> {1, 2, 3} \<and>
   map_of (stats (snd (start_game 1 ''bob'' 6 ''g1'' initial_state))) ''bob'' =
     Some \<lparr>wins = 0, losses = 0\<rparr> \<and>
   (4::int) \<notin> {1, 2, 3} \<and> snd (start_game 4 ''bob'' 6 ''g1'' initial_state) = initial_state \<and>
   map_of (stats started_state) ''bob'' \<noteq> None \<and>
   stats (snd (start_game 2 ''bob'' 9 ''g2'' started_state)) = stats started_state"
  using lazy_player_record [of initial_state "''bob''" 1 6 "''g1''"]
    lazy_player_record [of initial_state "''bob''" 4 6 "''g1''"]
    lazy_player_record [of started_state "''bob''" 2 9 "''g2''"]
  by (simp add: initial_state_def started_state_eq)

section \<open>The secret in responses\<close>

text \<open>
  Claim C9. A response of \<open>apply_guess_to_game\<close> has one of the five results. With
  \<open>too_high\<close> or \<open>too_low\<close> the game is still active and correct_number is absent;
  with \<open>win\<close>, \<open>lose\<close> or \<open>game_over\<close> the game is over and correct_number is the
  secret. So whenever the game is still active after the call, correct_number is absent.
\<close>

theorem secret_not_exposed:
  assumes "apply_guess_to_game g guess st = (Inr r, g', st')"
  shows "result r \<in> {''too_high'', ''too_low'', ''win'', ''lose'', ''game_over''} \<and>
         (result r \<in> {''too_high'', ''too_low''} \<longrightarrow> correct_number r = None \<and> \<not> is_over g') \<and>
         (result r \<in> {''win'', ''lose'', ''game_over''} \<longrightarrow>
            correct_number r = Some (secret_number g) \<and> is_over g') \<and>
         (\<not> is_over g' \<longrightarrow> correct_number r = None)"
  using assms
  by (auto simp add: apply_guess_to_game_def check_guess_def Let_def split: if_splits)

theorem secret_not_exposed_witness:
  "apply_guess_to_game started_game 10 started_state =
     (Inr \<lparr>result = ''too_high'', attempts_left = 4, correct_number = None\<rparr>,
      started_game\<lparr>attempts_used := 1\<rparr>, started_state) \<and>
   \<not> is_over (started_game\<lparr>attempts_used := 1\<rparr>) \<and>
   apply_guess_to_game started_game 7 started_state =
     (Inr \<lparr>result = ''win'', attempts_left = 4, correct_number = Some 7\<rparr>,
      finished_game, record_result ''bob'' ''win'' started_state) \<and>
   is_over finished_game"
proof -
  have a: "apply_guess_to_game started_game 10 started_state =
     (Inr \<lparr>result = ''too_high'', attempts_left = 4, correct_number = None\<rparr>,
      started_game\<lparr>attempts_used := 1\<rparr>, started_state)"
    by (simp add: started_game_def apply_guess_to_game_def check_guess_def Let_def)
  have b: "apply_guess_to_game started_game 7 started_state =
     (Inr \<lparr>result = ''win'', attempts_left = 4, correct_number = Some 7\<rparr>,
      finished_game, record_result ''bob'' ''win'' started_state)"
    by (simp add: started_game_def finished_game_def apply_guess_to_game_def check_guess_def
        Let_def)
  show ?thesis
    using a b secret_not_exposed [OF a] secret_not_exposed [OF b]
    by simp
qed

section \<open>Frame of a guess\<close>

text \<open>
  Claim C10. Serving a guess for the game stored under \<open>gid\<close>, owned by player p:
  every other entry of the registry is unchanged; the game itself differs at most in
  attempts_used and is_over; the stats record of every player other than p is unchanged;
  and unless the response is \<open>win\<close> or \<open>lose\<close>, the whole ledger (and the file) is
  unchanged.
\<close>

theorem check_guess_frame:
  assumes "games st gid = Some g" and "check_guess_endpoint gid guess st = (r, st')"
  shows "(\<forall>gid'. gid' \<noteq> gid \<longrightarrow> games st' gid' = games st gid') \<and>
         (\<exists>g'. games st' gid = Some g' \<and>
               g' = g\<lparr>attempts_used := attempts_used g', is_over := is_over g'\<rparr>) \<and>
         (\<forall>name. name \<noteq> player_name g \<longrightarrow> map_of (stats st') name = map_of (stats st) name) \<and>
         ((\<forall>resp. r = Inr resp \<longrightarrow> result resp \<notin> {''win'', ''lose''}) \<longrightarrow>
            stats st' = stats st \<and> scores_txt st' = scores_txt st)"
proof -
  obtain g' st1 where ap: "apply_guess_to_game g guess st = (r, g', st1)"
    and st': "st' = st1\<lparr>games := (games st1)(gid \<mapsto> g')\<rparr>"
    using assms by (auto simp add: check_guess_endpoint_def get_game_or_404_def split: prod.splits)
  from apply_guess_to_game_state [OF ap]
  have games1: "games st1 = games st"
    and others: "\<And>name. name \<noteq> player_name g \<Longrightarrow> map_of (stats st1) name = map_of (stats st) name"
    and quiet: "(\<forall>resp. r = Inr resp \<longrightarrow> result resp \<notin> {''win'', ''lose''}) \<Longrightarrow> st1 = st"
    by (auto simp add: map_of_record_result)
  show ?thesis
    using apply_guess_to_game_fields [OF ap] games1 others quiet
    by (auto simp add: st')
qed


theorem check_guess_frame_witness:
  "games two_player_state ''g1'' = Some started_game \<and>
   games (snd (check_guess_endpoint ''g1'' 7 two_player_state)) ''g2'' =
     games two_player_state ''g2'' \<and>
   map_of (stats (snd (check_guess_endpoint ''g1'' 7 two_player_state))) ''amy'' =
     map_of (stats two_player_state) ''amy'' \<and>
   fst (check_guess_endpoint ''g1'' 10 two_player_state) =
     Inr \<lparr>result = ''too_high'', attempts_left = 4, correct_number = None\<rparr> \<and>
   stats (snd (check_guess_endpoint ''g1'' 10 two_player_state)) = stats two_player_state"
proof -
  have a: "games two_player_state ''g1'' = Some started_game"
    by (simp add: two_player_state_eq)
  have b: "fst (check_guess_endpoint ''g1'' 10 two_player_state) =
     Inr \<lparr>result = ''too_high'', attempts_left = 4, correct_number = None\<rparr>"
    by (simp add: check_guess_endpoint_def get_game_or_404_def a apply_guess_to_game_def
        started_game_def check_guess_def Let_def)
  have c: "''g2'' \<noteq> ''g1''" and d: "''amy'' \<noteq> player_name started_game"
    by (simp_all add: started_game_def)
  note win = check_guess_frame [OF a surjective_pairing, of 7]
  note high = check_guess_frame [OF a surjective_pairing, of 10]
  from win [THEN conjunct1, rule_format, OF c]
  have e: "games (snd (check_guess_endpoint ''g1'' 7 two_player_state)) ''g2'' =
       games two_player_state ''g2''" .
  from win [THEN conjunct2, THEN conjunct2, THEN conjunct1, rule_format, OF d]
  have f: "map_of (stats (snd (check_guess_endpoint ''g1'' 7 two_player_state))) ''amy'' =
       map_of (stats two_player_state) ''amy''" .
  have "\<forall>resp. fst (check_guess_endpoint ''g1'' 10 two_player_state) = Inr resp \<longrightarrow>
      result resp \<notin> {''win'', ''lose''}"
    by (simp add: b)
  from high [THEN conjunct2, THEN conjunct2, THEN conjunct2, THEN mp, OF this]
  have g: "stats (snd (check_guess_endpoint ''g1'' 10 two_player_state)) = stats two_player_state"
    by simp
  from a b e f g show ?thesis by simp
qed

section \<open>Attempts accounting\<close>

lemma wrong_guess_step:
  assumes "games st gid = Some g" and "\<not> is_over g"
    and "1 \<le> x" and "x \<le> number_range g" and "x \<noteq> secret_number g"
    and "attempts_used g < max_attempts g"
  shows "\<exists>st'. check_guess_endpoint gid x st =
           (Inr \<lparr>result = (if attempts_used g + 1 = max_attempts g then ''lose''
                            else check_guess (secret_number g) x),
                 attempts_left = max_attempts g - (attempts_used g + 1),
                 correct_number = (if attempts_used g + 1 = max_attempts g
                                   then Some (secret_number g) else None)\<rparr>, st') \<and>
           games st' gid = Some (g\<lparr>attempts_used := attempts_used g + 1,
                                   is_over := (attempts_used g + 1 = max_attempts g)\<rparr>)"
  using assms
  by (auto simp add: check_guess_endpoint_def get_game_or_404_def apply_guess_to_game_def
      check_guess_def Let_def)

lemma check_guess_not_win_lose:
  "check_guess s x \<noteq> ''win'' \<and> check_guess s x \<noteq> ''lose''"
  by (simp add: check_guess_def)

lemma wrong_guesses_run:
  assumes "games st gid = Some g" and "\<not> is_over g"
    and "\<forall>x\<in>set gs. 1 \<le> x \<and> x \<le> number_range g \<and> x \<noteq> secret_number g"
    and "attempts_used g < max_attempts g"
    and "attempts_used g + int (length gs) \<le> max_attempts g"
    and "check_guesses gid gs st = (rs, st')"
  shows "length rs = length gs \<and>
         games st' gid = Some (g\<lparr>attempts_used := attempts_used g + int (length gs),
                                 is_over := (attempts_used g + int (length gs) = max_attempts g)\<rparr>) \<and>
         (\<forall>i<length gs.
            rs ! i = Inr \<lparr>result = (if attempts_used g + int i + 1 = max_attempts g then ''lose''
                                     else check_guess (secret_number g) (gs ! i)),
                          attempts_left = max_attempts g - (attempts_used g + int i + 1),
                          correct_number = (if attempts_used g + int i + 1 = max_attempts g
                                            then Some (secret_number g) else None)\<rparr>)"
  using assms
proof (induction gs arbitrary: g st rs)
  case Nil
  then show ?case by simp
next
  case (Cons x xs)
  let ?g1 = "g\<lparr>attempts_used := attempts_used g + 1,
                is_over := (attempts_used g + 1 = max_attempts g)\<rparr>"
  let ?r = "Inr \<lparr>result = (if attempts_used g + 1 = max_attempts g then ''lose''
                            else check_guess (secret_number g) x),
                 attempts_left = max_attempts g - (attempts_used g + 1),
                 correct_number = (if attempts_used g + 1 = max_attempts g
                                   then Some (secret_number g) else None)\<rparr>"
  from Cons.prems have x: "1 \<le> x" "x \<le> number_range g" "x \<noteq> secret_number g"
    by simp_all
  from wrong_guess_step [OF Cons.prems(1,2) x Cons.prems(4)]
  obtain st1 where step: "check_guess_endpoint gid x st = (?r, st1)"
    and g1: "games st1 gid = Some ?g1" by blast
  obtain rs1 where rest: "check_guesses gid xs st1 = (rs1, st')" and rs: "rs = ?r # rs1"
    using Cons.prems(6) step by (auto split: prod.splits)
  show ?case
  proof (cases "xs = []")
    case True
    with rest rs g1 show ?thesis by (auto simp add: nth_Cons')
  next
    case False
    then have "0 < int (length xs)" by simp
    moreover have "int (length (x # xs)) = int (length xs) + 1" by simp
    ultimately have lt: "attempts_used g + 1 < max_attempts g"
      using Cons.prems(5) by linarith
    then have a: "\<not> is_over ?g1" and b: "attempts_used ?g1 < max_attempts ?g1"
      and c: "attempts_used ?g1 + int (length xs) \<le> max_attempts ?g1"
      using Cons.prems(5) by simp_all
    have d: "\<forall>y\<in>set xs. 1 \<le> y \<and> y \<le> number_range ?g1 \<and> y \<noteq> secret_number ?g1"
      using Cons.prems(3) by simp
    from Cons.IH [OF g1 a d b c rest]
    have len: "length rs1 = length xs"
      and fin: "games st' gid = Some (?g1\<lparr>attempts_used := attempts_used ?g1 + int (length xs),
          is_over := (attempts_used ?g1 + int (length xs) = max_attempts ?g1)\<rparr>)"
      and nth: "\<forall>i<length xs.
            rs1 ! i = Inr \<lparr>result = (if attempts_used ?g1 + int i + 1 = max_attempts ?g1 then ''lose''
                                     else check_guess (secret_number ?g1) (xs ! i)),
                          attempts_left = max_attempts ?g1 - (attempts_used ?g1 + int i + 1),
                          correct_number = (if attempts_used ?g1 + int i + 1 = max_attempts ?g1
                                            then Some (secret_number ?g1) else None)\<rparr>"
      by blast+
    have "length rs = length (x # xs)" using len rs by simp
    moreover have "games st' gid = Some (g\<lparr>attempts_used := attempts_used g + int (length (x # xs)),
         is_over := (attempts_used g + int (length (x # xs)) = max_attempts g)\<rparr>)"
      using fin by (simp add: algebra_simps)
    moreover have "\<forall>i<length (x # xs).
            rs ! i = Inr \<lparr>result = (if attempts_used g + int i + 1 = max_attempts g then ''lose''
                                     else check_guess (secret_number g) ((x # xs) ! i)),
                          attempts_left = max_attempts g - (attempts_used g + int i + 1),
                          correct_number = (if attempts_used g + int i + 1 = max_attempts g
                                            then Some (secret_number g) else None)\<rparr>"
    proof (intro allI impI)
      fix i assume i: "i < length (x # xs)"
      show "rs ! i = Inr \<lparr>result = (if attempts_used g + int i + 1 = max_attempts g then ''lose''
                                     else check_guess (secret_number g) ((x # xs) ! i)),
                          attempts_left = max_attempts g - (attempts_used g + int i + 1),
                          correct_number = (if attempts_used g + int i + 1 = max_attempts g
                                            then Some (secret_number g) else None)\<rparr>"
      proof (cases i)
        case 0
        then show ?thesis using rs by simp
      next
        case (Suc j)
        with i have "j < length xs" by simp
        with nth have "rs1 ! j = Inr \<lparr>result = (if attempts_used ?g1 + int j + 1 = max_attempts ?g1 then ''lose''
                                     else check_guess (secret_number ?g1) (xs ! j)),
                          attempts_left = max_attempts ?g1 - (attempts_used ?g1 + int j + 1),
                          correct_number = (if attempts_used ?g1 + int j + 1 = max_attempts ?g1
                                            then Some (secret_number ?g1) else None)\<rparr>"
          by blast
        then show ?thesis using rs Suc by (simp add: algebra_simps)
      qed
    qed
    ultimately show ?thesis by blast
  qed
qed


lemma create_game_fresh:
  assumes "create_game d p rnd gid st0 = (Inr resp, st1)" and "games st1 gid = Some g"
  shows "attempts_used g = 0 \<and> \<not> is_over g \<and> 0 < max_attempts g \<and>
         number_range g = resp_number_range resp \<and> max_attempts g = resp_max_attempts resp"
  using assms
  by (auto simp add: create_game_def choose_difficulty_from_number_def Let_def split: if_splits)

lemma active_guess_win:
  assumes "games st gid = Some g" and "\<not> is_over g" and "1 \<le> x" and "x \<le> number_range g"
  shows "\<exists>r st'. check_guess_endpoint gid x st = (Inr r, st') \<and>
           (result r = ''win'' \<longleftrightarrow> x = secret_number g) \<and>
           (result r = ''win'' \<longrightarrow>
              correct_number r = Some (secret_number g) \<and>
              attempts_left r = max_attempts g - (attempts_used g + 1) \<and>
              (\<exists>g'. games st' gid = Some g' \<and> is_over g'))"
  using assms
  by (auto simp add: check_guess_endpoint_def get_game_or_404_def apply_guess_to_game_def
      check_guess_def Let_def)

lemma create_game_started:
  "create_game 1 ''bob'' 6 ''g1'' initial_state =
     (Inr \<lparr>game_id = ''g1'', resp_number_range = 10, resp_max_attempts = 5\<rparr>, started_state)"
  by (simp add: started_state_eq started_game_def initial_state_def create_game_def
       choose_difficulty_from_number_def randint_def ensure_player_stats_def Let_def)

text \<open>
  Claim C1. Take the game that \<open>create_game\<close> has just stored, and send it k guesses
  that are in range and differ from the secret, with k at most max_attempts (a guess sent
  to a game that is over is no attempt: it is answered \<open>game_over\<close>). Then attempts_used
  is k and max_attempts - attempts_used is max_attempts - k; the i-th response reports
  attempts_left = max_attempts - i, its result is \<open>lose\<close> exactly when i = max_attempts,
  and then attempts_left is 0 and correct_number is the secret; none of these responses
  is \<open>win\<close>; the game is over exactly when k = max_attempts. While k is below
  max_attempts, a further guess in range is answered \<open>win\<close> exactly when it equals the
  secret, and that response carries the secret and ends the game.
\<close>

theorem attempts_accounting:
  assumes "create_game d p rnd gid st0 = (Inr resp, st1)"
    and "games st1 gid = Some g"
    and "\<forall>x\<in>set gs. 1 \<le> x \<and> x \<le> number_range g \<and> x \<noteq> secret_number g"
    and "int (length gs) \<le> max_attempts g"
    and "check_guesses gid gs st1 = (rs, st')"
  shows "number_range g = resp_number_range resp \<and>
         max_attempts g = resp_max_attempts resp \<and>
         length rs = length gs \<and>
         (\<exists>g'. games st' gid = Some g' \<and>
               attempts_used g' = int (length gs) \<and>
               max_attempts g' - attempts_used g' = max_attempts g - int (length gs) \<and>
               (is_over g' \<longleftrightarrow> int (length gs) = max_attempts g)) \<and>
         (\<forall>i<length gs. \<exists>r.
            rs ! i = Inr r \<and>
            attempts_left r = max_attempts g - int (i + 1) \<and>
            (result r = ''lose'' \<longleftrightarrow> int (i + 1) = max_attempts g) \<and>
            (result r = ''lose'' \<longrightarrow>
               attempts_left r = 0 \<and> correct_number r = Some (secret_number g)) \<and>
            result r \<noteq> ''win'') \<and>
         (int (length gs) < max_attempts g \<longrightarrow>
            (\<forall>x. 1 \<le> x \<and> x \<le> number_range g \<longrightarrow>
               (\<exists>r st''. check_guess_endpoint gid x st' = (Inr r, st'') \<and>
                  (result r = ''win'' \<longleftrightarrow> x = secret_number g) \<and>
                  (result r = ''win'' \<longrightarrow>
                     correct_number r = Some (secret_number g) \<and>
                     attempts_left r = max_attempts g - int (length gs + 1) \<and>
                     (\<exists>g''. games st'' gid = Some g'' \<and> is_over g'')))))"
proof -
  let ?k = "int (length gs)"
  let ?g' = "g\<lparr>attempts_used := attempts_used g + ?k,
                is_over := (attempts_used g + ?k = max_attempts g)\<rparr>"
  from create_game_fresh [OF assms(1,2)]
  have used: "attempts_used g = 0" and active: "\<not> is_over g" and pos: "0 < max_attempts g"
    and nr: "number_range g = resp_number_range resp"
    and ma: "max_attempts g = resp_max_attempts resp"
    by simp_all
  from wrong_guesses_run [OF assms(2) active assms(3) _ _ assms(5)] used pos assms(4)
  have len: "length rs = length gs"
    and fin: "games st' gid = Some ?g'"
    and nth: "\<forall>i<length gs.
            rs ! i = Inr \<lparr>result = (if attempts_used g + int i + 1 = max_attempts g then ''lose''
                                     else check_guess (secret_number g) (gs ! i)),
                          attempts_left = max_attempts g - (attempts_used g + int i + 1),
                          correct_number = (if attempts_used g + int i + 1 = max_attempts g
                                            then Some (secret_number g) else None)\<rparr>"
    by simp_all
  have final: "\<exists>g'. games st' gid = Some g' \<and>
               attempts_used g' = ?k \<and>
               max_attempts g' - attempts_used g' = max_attempts g - ?k \<and>
               (is_over g' \<longleftrightarrow> ?k = max_attempts g)"
    using fin used by simp
  have each: "\<forall>i<length gs. \<exists>r.
            rs ! i = Inr r \<and>
            attempts_left r = max_attempts g - int (i + 1) \<and>
            (result r = ''lose'' \<longleftrightarrow> int (i + 1) = max_attempts g) \<and>
            (result r = ''lose'' \<longrightarrow>
               attempts_left r = 0 \<and> correct_number r = Some (secret_number g)) \<and>
            result r \<noteq> ''win''"
    using nth used by (simp add: check_guess_not_win_lose)
  have next_guess: "int (length gs) < max_attempts g \<longrightarrow>
            (\<forall>x. 1 \<le> x \<and> x \<le> number_range g \<longrightarrow>
               (\<exists>r st''. check_guess_endpoint gid x st' = (Inr r, st'') \<and>
                  (result r = ''win'' \<longleftrightarrow> x = secret_number g) \<and>
                  (result r = ''win'' \<longrightarrow>
                     correct_number r = Some (secret_number g) \<and>
                     attempts_left r = max_attempts g - int (length gs + 1) \<and>
                     (\<exists>g''. games st'' gid = Some g'' \<and> is_over g''))))"
  proof (intro impI allI)
    fix x
    assume lt: "int (length gs) < max_attempts g" and x: "1 \<le> x \<and> x \<le> number_range g"
    from lt used have a: "\<not> is_over ?g'" by simp
    from x have b: "1 \<le> x" and c: "x \<le> number_range ?g'" by simp_all
    from active_guess_win [OF fin a b c] used
    show "\<exists>r st''. check_guess_endpoint gid x st' = (Inr r, st'') \<and>
                  (result r = ''win'' \<longleftrightarrow> x = secret_number g) \<and>
                  (result r = ''win'' \<longrightarrow>
                     correct_number r = Some (secret_number g) \<and>
                     attempts_left r = max_attempts g - int (length gs + 1) \<and>
                     (\<exists>g''. games st'' gid = Some g'' \<and> is_over g''))"
      by (simp add: algebra_simps)
  qed
  from nr ma len final each next_guess show ?thesis
    by (intro conjI)
qed


theorem attempts_accounting_witness:
  "create_game 1 ''bob'' 6 ''g1'' initial_state =
     (Inr \<lparr>game_id = ''g1'', resp_number_range = 10, resp_max_attempts = 5\<rparr>, started_state) \<and>
   games started_state ''g1'' = Some started_game \<and>
   (\<exists>g'. games (snd (check_guesses ''g1'' [10, 1, 3, 4, 5] started_state)) ''g1'' = Some g' \<and>
         attempts_used g' = 5 \<and> max_attempts g' - attempts_used g' = 0 \<and> is_over g') \<and>
   (\<exists>r. fst (check_guesses ''g1'' [10, 1, 3, 4, 5] started_state) ! 4 = Inr r \<and>
        result r = ''lose'' \<and> attempts_left r = 0 \<and> correct_number r = Some 7) \<and>
   (\<exists>r. fst (check_guesses ''g1'' [10, 1, 3, 4, 5] started_state) ! 1 = Inr r \<and>
        result r \<noteq> ''lose'' \<and> result r \<noteq> ''win'' \<and> attempts_left r = 3) \<and>
   (\<exists>g'. games (snd (check_guesses ''g1'' [10, 1] started_state)) ''g1'' = Some g' \<and>
         attempts_used g' = 2 \<and> max_attempts g' - attempts_used g' = 3 \<and> \<not> is_over g') \<and>
   (\<exists>r st''. check_guess_endpoint ''g1'' 7 (snd (check_guesses ''g1'' [10, 1] started_state)) =
         (Inr r, st'') \<and> result r = ''win'' \<and> correct_number r = Some 7 \<and>
         attempts_left r = 2)"
proof -
  have a: "games started_state ''g1'' = Some started_game"
    by (simp add: started_state_eq)
  have b: "\<forall>x\<in>set [10, 1, 3, 4, 5].
      1 \<le> x \<and> x \<le> number_range started_game \<and> x \<noteq> secret_number started_game"
    and c: "int (length [10::int, 1, 3, 4, 5]) \<le> max_attempts started_game"
    and d: "\<forall>x\<in>set [10, 1].
      1 \<le> x \<and> x \<le> number_range started_game \<and> x \<noteq> secret_number started_game"
    and e: "int (length [10::int, 1]) \<le> max_attempts started_game"
    by (simp_all add: started_game_def)
  note full = attempts_accounting [OF create_game_started a b c surjective_pairing]
  note part = attempts_accounting [OF create_game_started a d e surjective_pairing]
  from full [THEN conjunct2, THEN conjunct2, THEN conjunct2, THEN conjunct1]
  have g1: "\<exists>g'. games (snd (check_guesses ''g1'' [10, 1, 3, 4, 5] started_state)) ''g1'' = Some g' \<and>
         attempts_used g' = 5 \<and> max_attempts g' - attempts_used g' = 0 \<and> is_over g'"
    by (simp add: started_game_def)
  have i4: "4 < length [10::int, 1, 3, 4, 5]" and i1: "1 < length [10::int, 1, 3, 4, 5]"
    by simp_all
  note each = full [THEN conjunct2, THEN conjunct2, THEN conjunct2, THEN conjunct2, THEN conjunct1]
  from each [rule_format, OF i4]
  have g2: "\<exists>r. fst (check_guesses ''g1'' [10, 1, 3, 4, 5] started_state) ! 4 = Inr r \<and>
        result r = ''lose'' \<and> attempts_left r = 0 \<and> correct_number r = Some 7"
    by (auto simp add: started_game_def)
  from each [rule_format, OF i1]
  have g3: "\<exists>r. fst (check_guesses ''g1'' [10, 1, 3, 4, 5] started_state) ! 1 = Inr r \<and>
        result r \<noteq> ''lose'' \<and> result r \<noteq> ''win'' \<and> attempts_left r = 3"
    by (auto simp add: started_game_def)
  from part [THEN conjunct2, THEN conjunct2, THEN conjunct2, THEN conjunct1]
  have g4: "\<exists>g'. games (snd (check_guesses ''g1'' [10, 1] started_state)) ''g1'' = Some g' \<and>
         attempts_used g' = 2 \<and> max_attempts g' - attempts_used g' = 3 \<and> \<not> is_over g'"
    by (simp add: started_game_def)
  have lt: "int (length [10::int, 1]) < max_attempts started_game"
    and x: "1 \<le> (7::int) \<and> 7 \<le> number_range started_game"
    by (simp_all add: started_game_def)
  from part [THEN conjunct2, THEN conjunct2, THEN conjunct2, THEN conjunct2, THEN conjunct2,
      THEN mp, OF lt, THEN spec, THEN mp, OF x]
  have g5: "\<exists>r st''. check_guess_endpoint ''g1'' 7 (snd (check_guesses ''g1'' [10, 1] started_state)) =
         (Inr r, st'') \<and> result r = ''win'' \<and> correct_number r = Some 7 \<and>
         attempts_left r = 2"
    by (auto simp add: started_game_def)
  from create_game_started a g1 g2 g3 g4 g5 show ?thesis
    by (intro conjI)
qed

section \<open>Printing and reading integers\<close>

lemma of_char_digit_char: "d < 10 \<Longrightarrow> (of_char (digit_char d) :: nat) = 48 + d"
  by (simp add: digit_char_def)

lemma is_digit_digit_char: "d < 10 \<Longrightarrow> is_digit (digit_char d)"
  by (simp add: is_digit_def of_char_digit_char)

lemma digit_val_digit_char: "d < 10 \<Longrightarrow> digit_val (digit_char d) = d"
  by (simp add: digit_val_def of_char_digit_char)

lemma is_digit_plain:
  assumes "is_digit c"
  shows "c \<noteq> CHR ''_''" and "c \<noteq> CHR ''-''" and "c \<noteq> CHR ''+''" and "c \<noteq> CHR '';''"
    and "c \<noteq> LF" and "c \<noteq> CR" and "\<not> py_isspace c" and "\<not> int_isspace c"
  using assms
  by (auto simp add: is_digit_def py_isspace_def int_isspace_def LF_def CR_def Let_def)

lemma str_of_nat_digits: "\<forall>c\<in>set (str_of_nat n). is_digit c"
proof (induction n rule: str_of_nat.induct)
  case (1 n)
  show ?case
  proof (cases "n < 10")
    case True
    then show ?thesis by (simp add: str_of_nat.simps [of n] is_digit_digit_char)
  next
    case False
    with "1" show ?thesis by (simp add: str_of_nat.simps [of n] is_digit_digit_char)
  qed
qed

lemma str_of_nat_nonempty: "str_of_nat n \<noteq> []"
  by (simp add: str_of_nat.simps [of n])

lemma valid_digits_all:
  assumes "ds \<noteq> []" and "\<forall>c\<in>set ds. is_digit c"
  shows "valid_digits ds"
  using assms
proof (induction ds rule: valid_digits.induct)
  case 1
  then show ?case by simp
next
  case (2 c)
  then show ?case by simp
next
  case (3 c d cs)
  then show ?case by (simp add: is_digit_plain(1))
qed

lemma filter_digits:
  assumes "\<forall>c\<in>set ds. is_digit c"
  shows "filter (\<lambda>c. c \<noteq> CHR ''_'') ds = ds"
  using assms by (simp add: filter_id_conv is_digit_plain(1))

lemma nat_of_digits_snoc:
  assumes "\<forall>c\<in>set ds. is_digit c" and "is_digit c"
  shows "nat_of_digits (ds @ [c]) = 10 * nat_of_digits ds + digit_val c"
  using assms by (simp add: nat_of_digits_def filter_digits is_digit_plain(1))

lemma nat_of_digits_str_of_nat: "nat_of_digits (str_of_nat n) = n"
proof (induction n rule: str_of_nat.induct)
  case (1 n)
  show ?case
  proof (cases "n < 10")
    case True
    then have "str_of_nat n = [digit_char n]" by (simp add: str_of_nat.simps [of n])
    with True show ?thesis
      by (simp add: nat_of_digits_def is_digit_plain(1) is_digit_digit_char digit_val_digit_char)
  next
    case False
    then have "str_of_nat n = str_of_nat (n div 10) @ [digit_char (n mod 10)]"
      by (simp add: str_of_nat.simps [of n])
    with False "1" show ?thesis
      by (simp add: nat_of_digits_snoc str_of_nat_digits is_digit_digit_char digit_val_digit_char)
  qed
qed

lemma strip_chars_id:
  assumes "xs \<noteq> []" and "\<not> p (hd xs)" and "\<not> p (last xs)"
  shows "strip_chars p xs = xs"
proof -
  from assms(1,2) have a: "dropWhile p xs = xs"
    by (cases xs) simp_all
  from assms(1,3) have b: "dropWhile p (rev xs) = rev xs"
    by (cases "rev xs") (simp_all add: last_rev [symmetric] del: last_rev)
  show ?thesis by (simp add: strip_chars_def a b)
qed

lemma int_isspace_py_isspace: "int_isspace c \<Longrightarrow> py_isspace c"
  by (auto simp add: int_isspace_def py_isspace_def Let_def)

lemma str_of_int_chars:
  "str_of_int i \<noteq> []"
  "\<not> py_isspace (hd (str_of_int i))"
  "\<not> py_isspace (last (str_of_int i))"
  "CHR '';'' \<notin> set (str_of_int i)"
  "LF \<notin> set (str_of_int i)"
  "CR \<notin> set (str_of_int i)"
proof -
  have d: "\<forall>c\<in>set (str_of_nat n). is_digit c" for n by (rule str_of_nat_digits)
  have ne: "str_of_nat n \<noteq> []" for n by (rule str_of_nat_nonempty)
  have minus: "\<not> py_isspace CHR ''-''" "CHR ''-'' \<noteq> CHR '';''" "CHR ''-'' \<noteq> LF" "CHR ''-'' \<noteq> CR"
    by (simp_all add: py_isspace_def LF_def CR_def)
  have h: "is_digit (hd (str_of_nat n))" "is_digit (last (str_of_nat n))" for n
    using d [of n] ne [of n] by simp_all
  show "str_of_int i \<noteq> []" by (simp add: str_of_int_def ne)
  show "\<not> py_isspace (hd (str_of_int i))"
    using h by (simp add: str_of_int_def minus is_digit_plain(7))
  show "\<not> py_isspace (last (str_of_int i))"
    using h by (simp add: str_of_int_def ne is_digit_plain(7))
  show "CHR '';'' \<notin> set (str_of_int i)"
    using d is_digit_plain(4) by (auto simp add: str_of_int_def)
  show "LF \<notin> set (str_of_int i)"
    using d is_digit_plain(5) minus by (auto simp add: str_of_int_def)
  show "CR \<notin> set (str_of_int i)"
    using d is_digit_plain(6) minus by (auto simp add: str_of_int_def)
qed

lemma py_int_str_of_int: "py_int (str_of_int i) = Inr i"
proof -
  have s: "strip_chars int_isspace (str_of_int i) = str_of_int i"
    using str_of_int_chars(1-3) [of i] by (intro strip_chars_id) (auto dest: int_isspace_py_isspace)
  show ?thesis
  proof (cases "i < 0")
    case True
    then have e: "str_of_int i = CHR ''-'' # str_of_nat (nat (- i))"
      by (simp add: str_of_int_def)
    have "valid_digits (str_of_nat (nat (- i)))"
      by (rule valid_digits_all) (rule str_of_nat_nonempty, rule str_of_nat_digits)
    with True s [unfolded e] show ?thesis
      by (simp add: py_int_def Let_def e nat_of_digits_str_of_nat)
  next
    case False
    then have e: "str_of_int i = str_of_nat (nat i)"
      by (simp add: str_of_int_def)
    have v: "valid_digits (str_of_nat (nat i))"
      by (rule valid_digits_all) (rule str_of_nat_nonempty, rule str_of_nat_digits)
    have "is_digit (hd (str_of_nat (nat i)))"
      using str_of_nat_digits [of "nat i"] str_of_nat_nonempty [of "nat i"] by simp
    then have "hd (str_of_nat (nat i)) \<noteq> CHR ''-''" "hd (str_of_nat (nat i)) \<noteq> CHR ''+''"
      by (simp_all add: is_digit_plain)
    with False v s [unfolded e] show ?thesis
      by (simp add: py_int_def Let_def e nat_of_digits_str_of_nat)
  qed
qed

section \<open>Lines and fields of the ledger file\<close>

lemma universal_newlines_id: "CR \<notin> set t \<Longrightarrow> universal_newlines t = t"
  by (induction t rule: universal_newlines.induct) auto

lemma lines_of_line:
  assumes "LF \<notin> set l"
  shows "lines_of (l @ LF # rest) = (l @ [LF]) # lines_of rest"
  using assms by (induction l) auto

lemma split_str_no_sep: "sep \<notin> set xs \<Longrightarrow> split_str sep xs = [xs]"
  by (induction xs) auto

lemma split_str_field:
  assumes "sep \<notin> set xs"
  shows "split_str sep (xs @ sep # ys) = xs # split_str sep ys"
  using assms by (induction xs) auto

lemma strip_line:
  assumes "xs \<noteq> []" and "\<not> py_isspace (hd xs)" and "\<not> py_isspace (last xs)"
  shows "strip (xs @ [LF]) = xs"
proof -
  have sp: "py_isspace LF" by (simp add: py_isspace_def LF_def)
  from assms(1,2) have a: "dropWhile py_isspace (xs @ [LF]) = xs @ [LF]"
    by (cases xs) simp_all
  from assms(1,3) have b: "dropWhile py_isspace (rev xs) = rev xs"
    by (cases "rev xs") (simp_all add: last_rev [symmetric] del: last_rev)
  show ?thesis by (simp add: strip_def strip_chars_def a b sp)
qed

lemma file_lines_ledger_text:
  assumes "\<forall>n\<in>fst ` set l. LF \<notin> set n \<and> CR \<notin> set n"
  shows "file_lines (ledger_text l) = map stats_line l"
proof -
  have "CHR '';'' \<noteq> CR" and "LF \<noteq> CR"
    by (simp_all add: LF_def CR_def)
  with assms have cr: "CR \<notin> set (ledger_text l)"
    by (auto simp add: ledger_text_def stats_line_def str_of_int_chars)
  have "lines_of (ledger_text l) = map stats_line l"
    using assms
  proof (induction l)
    case Nil
    then show ?case by (simp add: ledger_text_def)
  next
    case (Cons e l)
    let ?body = "fst e @ '';'' @ str_of_int (wins (snd e)) @ '';'' @ str_of_int (losses (snd e))"
    have "CHR '';'' \<noteq> LF" by (simp add: LF_def)
    with Cons.prems have "LF \<notin> set ?body"
      by (simp add: str_of_int_chars)
    from lines_of_line [OF this, of "ledger_text l"] Cons
    show ?case by (simp add: ledger_text_def stats_line_def)
  qed
  then show ?thesis by (simp add: file_lines_def universal_newlines_id [OF cr])
qed

lemma parse_stats_line:
  assumes "CHR '';'' \<notin> set n" and "n = [] \<or> \<not> py_isspace (hd n)"
  shows "strip (stats_line (n, r)) \<noteq> [] \<and>
         split_str (CHR '';'') (strip (stats_line (n, r))) =
           [n, str_of_int (wins r), str_of_int (losses r)]"
proof -
  let ?w = "str_of_int (wins r)" and ?lo = "str_of_int (losses r)"
  let ?body = "n @ CHR '';'' # ?w @ CHR '';'' # ?lo"
  have ne: "?body \<noteq> []" by simp
  have semi: "\<not> py_isspace CHR '';''" by (simp add: py_isspace_def)
  have hd: "\<not> py_isspace (hd ?body)"
    using assms(2) semi by (cases n) auto
  have last: "\<not> py_isspace (last ?body)"
    using str_of_int_chars(1,3) [of "losses r"] by simp
  have "stats_line (n, r) = ?body @ [LF]" by (simp add: stats_line_def)
  with strip_line [OF ne hd last] have s: "strip (stats_line (n, r)) = ?body" by simp
  have "split_str (CHR '';'') ?body = [n, ?w, ?lo]"
    by (simp add: split_str_field assms(1) str_of_int_chars split_str_no_sep)
  with s ne show ?thesis by simp
qed

lemma player_record_eta: "\<lparr>wins = wins r, losses = losses r\<rparr> = (r::player_record)"
  by (cases r) simp

lemma load_lines_stats_lines:
  assumes "\<forall>n\<in>fst ` set l. CHR '';'' \<notin> set n \<and> (n = [] \<or> \<not> py_isspace (hd n))"
  shows "load_lines (map stats_line l) data = Inr (fold (\<lambda>e. AList.update (fst e) (snd e)) l data)"
  using assms
proof (induction l arbitrary: data)
  case Nil
  then show ?case by simp
next
  case (Cons e l)
  obtain n r where e: "e = (n, r)" by (cases e)
  from Cons.prems e have "CHR '';'' \<notin> set n" and "n = [] \<or> \<not> py_isspace (hd n)"
    by simp_all
  from parse_stats_line [OF this, of r] Cons.IH Cons.prems
  show ?case by (simp add: e py_int_str_of_int player_record_eta)
qed

lemma update_fresh: "k \<notin> fst ` set al \<Longrightarrow> AList.update k v al = al @ [(k, v)]"
  by (induction al) auto

lemma fold_update_distinct:
  assumes "distinct (map fst (data @ l))"
  shows "fold (\<lambda>e. AList.update (fst e) (snd e)) l data = data @ l"
  using assms
proof (induction l arbitrary: data)
  case Nil
  then show ?case by simp
next
  case (Cons e l)
  from Cons.prems have fresh: "fst e \<notin> fst ` set data" by auto
  from Cons.prems have "distinct (map fst ((data @ [e]) @ l))" by auto
  from Cons.IH [OF this] show ?case by (simp add: update_fresh [OF fresh])
qed

section \<open>The ledger is a dictionary\<close>

lemma distinct_stats_ensure:
  "distinct (map fst (stats st)) \<Longrightarrow> distinct (map fst (stats (ensure_player_stats p st)))"
  by (simp add: ensure_player_stats_def distinct_update)

lemma distinct_stats_record_result:
  "distinct (map fst (stats st)) \<Longrightarrow> distinct (map fst (stats (record_result p res st)))"
  by (simp add: record_result_def save_stats_def Let_def distinct_map_entry distinct_stats_ensure)

lemma distinct_stats_serve:
  assumes "distinct (map fst (stats st))"
  shows "distinct (map fst (stats (serve req st)))"
proof (cases req)
  case (StartGame d p rnd gid)
  have "stats (serve req st) = stats st \<or> stats (serve req st) = stats (ensure_player_stats p st)"
    by (auto simp add: StartGame start_game_def create_game_def Let_def
        split: sum.splits prod.splits error.splits)
  with assms distinct_stats_ensure [OF assms, of p] show ?thesis by auto
next
  case (CheckGuess gid guess)
  show ?thesis
  proof (cases "games st gid")
    case None
    with assms show ?thesis
      by (simp add: CheckGuess check_guess_endpoint_def get_game_or_404_def)
  next
    case (Some g)
    obtain r0 g' st1 where ap: "apply_guess_to_game g guess st = (r0, g', st1)"
      by (cases "apply_guess_to_game g guess st") auto
    then have eq: "stats (serve req st) = stats st1"
      by (simp add: CheckGuess Some check_guess_endpoint_def get_game_or_404_def)
    from apply_guess_to_game_state [OF ap]
    have "st1 = st \<or> (\<exists>res. st1 = record_result (player_name g) res st)" by auto
    with assms distinct_stats_record_result [OF assms] show ?thesis
      by (auto simp add: eq)
  qed
next
  case (GetStats p)
  with assms show ?thesis
    by (simp add: get_player_stats_def get_player_stats_data_def split: option.splits)
next
  case Root
  with assms show ?thesis by simp
next
  case (Greet n)
  with assms show ?thesis by simp
qed

lemma distinct_load_lines:
  "distinct (map fst data) \<Longrightarrow> load_lines ls data = Inr l \<Longrightarrow> distinct (map fst l)"
proof (induction ls arbitrary: data)
  case Nil
  then show ?case by simp
next
  case (Cons a ls)
  from Cons.prems(2) show ?case
    by (auto simp add: Let_def split: if_splits list.splits sum.splits
        intro: Cons.IH [OF Cons.prems(1)] Cons.IH [OF distinct_update [OF Cons.prems(1)]])
qed

lemma distinct_startup: "startup file = Inr st \<Longrightarrow> distinct (map fst (stats st))"
  by (auto simp add: startup_def load_stats_def split: sum.splits option.splits
      dest: distinct_load_lines [rotated])

section \<open>The file written by a recorded result\<close>

lemma load_ledger_text:
  assumes "distinct (map fst l)"
    and "\<forall>n\<in>fst ` set l.
           CHR '';'' \<notin> set n \<and> LF \<notin> set n \<and> CR \<notin> set n \<and> (n = [] \<or> \<not> py_isspace (hd n))"
  shows "load_stats (Some (ledger_text l)) = Inr l"
proof -
  from assms(2) have "file_lines (ledger_text l) = map stats_line l"
    by (intro file_lines_ledger_text) blast
  moreover from assms(2)
  have "load_lines (map stats_line l) [] = Inr (fold (\<lambda>e. AList.update (fst e) (snd e)) l [])"
    by (intro load_lines_stats_lines) blast
  moreover from assms(1) have "fold (\<lambda>e. AList.update (fst e) (snd e)) l [] = l"
    using fold_update_distinct [of "[]" l] by simp
  ultimately show ?thesis by (simp add: load_stats_def)
qed

lemma ledger_text_lines:
  "ledger_text l =
     concat (map (\<lambda>e. fst e @ '';'' @ str_of_int (wins (snd e)) @ '';'' @
                        str_of_int (losses (snd e)) @ [CHR 0x0A]) l)"
  by (simp add: ledger_text_def stats_line_def LF_def cong: map_cong)

lemma record_result_file_read_back:
  assumes "distinct (map fst (stats st))"
    and "\<forall>n\<in>fst ` set (stats (record_result name res st)).
           CHR '';'' \<notin> set n \<and> CHR 0x0A \<notin> set n \<and> CHR 0x0D \<notin> set n \<and>
           (n = [] \<or> \<not> py_isspace (hd n))"
  shows "load_stats (scores_txt (record_result name res st)) =
           Inr (stats (record_result name res st))"
proof -
  have d: "distinct (map fst (stats (record_result name res st)))"
    using assms(1) by (rule distinct_stats_record_result)
  from assms(2)
  have ok: "\<forall>n\<in>fst ` set (stats (record_result name res st)).
           CHR '';'' \<notin> set n \<and> LF \<notin> set n \<and> CR \<notin> set n \<and> (n = [] \<or> \<not> py_isspace (hd n))"
    by (simp add: LF_def CR_def)
  from load_ledger_text [OF d ok] show ?thesis
    by (simp add: scores_txt_record_result)
qed

section \<open>Saving and loading the ledger\<close>

text \<open>
  Claim C7, as stated: with no \<open>;\<close> in the names, saving and loading reproduces every
  player's record. The player whose name is a space followed by \<open>al\<close> has one win; the
  file written for this ledger is read back as a ledger whose only name is \<open>al\<close>,
  because \<open>load_stats\<close> strips each line.
\<close>

theorem leading_space_name_lost:
  "CHR '';'' \<notin> set '' al'' \<and>
   map_of (stats spaced_name_state) '' al'' = Some \<lparr>wins = 1, losses = 0\<rparr> \<and>
   load_stats (scores_txt (save_stats spaced_name_state)) =
     Inr [(''al'', \<lparr>wins = 1, losses = 0\<rparr>)]"
  by code_simp

text \<open>
  Claim C7, amended. For a ledger whose names contain no \<open>;\<close>, no line feed and no
  carriage return, and do not begin with a whitespace character, loading the file that
  \<open>save_stats\<close> writes gives back the same ledger: the same names in the same order
  with the same wins and losses. A process started on that file has exactly this ledger.
\<close>

theorem ledger_round_trip:
  assumes "distinct (map fst (stats st))"
    and "\<forall>n\<in>fst ` set (stats st).
           CHR '';'' \<notin> set n \<and> LF \<notin> set n \<and> CR \<notin> set n \<and> (n = [] \<or> \<not> py_isspace (hd n))"
  shows "load_stats (scores_txt (save_stats st)) = Inr (stats st) \<and>
         startup (scores_txt (save_stats st)) =
           Inr \<lparr>games = Map.empty, stats = stats st, scores_txt = scores_txt (save_stats st)\<rparr>"
proof -
  let ?l = "stats st"
  from assms(2) have "file_lines (ledger_text ?l) = map stats_line ?l"
    by (intro file_lines_ledger_text) blast
  moreover from assms(2)
  have "load_lines (map stats_line ?l) [] = Inr (fold (\<lambda>e. AList.update (fst e) (snd e)) ?l [])"
    by (intro load_lines_stats_lines) blast
  moreover from assms(1) have "fold (\<lambda>e. AList.update (fst e) (snd e)) ?l [] = ?l"
    using fold_update_distinct [of "[]" ?l] by simp
  ultimately have "load_stats (scores_txt (save_stats st)) = Inr ?l"
    by (simp add: load_stats_def save_stats_def)
  then show ?thesis by (simp add: startup_def)
qed

theorem ledger_round_trip_witness:
  "distinct (map fst (stats two_player_state)) \<and>
   load_stats (scores_txt (save_stats two_player_state)) =
     Inr [(''bob'', \<lparr>wins = 0, losses = 0\<rparr>), (''amy'', \<lparr>wins = 0, losses = 0\<rparr>)]"
proof -
  have a: "distinct (map fst (stats two_player_state))"
    by (simp add: two_player_state_eq)
  have b: "\<forall>n\<in>fst ` set (stats two_player_state).
      CHR '';'' \<notin> set n \<and> LF \<notin> set n \<and> CR \<notin> set n \<and> (n = [] \<or> \<not> py_isspace (hd n))"
    by (simp add: two_player_state_eq LF_def CR_def py_isspace_def)
  from a ledger_round_trip [OF a b] show ?thesis
    by (simp add: two_player_state_eq)
qed

section \<open>Monotone stats\<close>

lemma str_of_int_0_1: "str_of_int 0 = ''0''" "str_of_int 1 = ''1''"
  by (simp_all add: str_of_int_def str_of_nat.simps digit_char_def char_of_eq_iff)

lemma stats_bob_wins:
  "stats (record_result ''bob'' ''win'' two_player_state) =
     [(''bob'', \<lparr>wins = 1, losses = 0\<rparr>), (''amy'', \<lparr>wins = 0, losses = 0\<rparr>)]"
  by (simp add: two_player_state_eq record_result_def ensure_player_stats_def save_stats_def
      Let_def)

text \<open>
  Claim C6. For every player name with a record, after any sequence of requests the
  record is still there and neither wins nor losses is smaller. \<open>record_result\<close> with
  \<open>win\<close> adds 1 to that player's wins (from 0 when the record is new) and leaves the
  losses; with \<open>lose\<close> it adds 1 to the losses and leaves the wins; whatever the
  result, the records of all other players are unchanged. Afterwards the file holds the
  whole ledger: its text is, for every record in order, the name, \<open>;\<close>, the wins in
  decimal, \<open>;\<close>, the losses in decimal and a line feed; and when the names have no
  \<open>;\<close>, no line break and no leading whitespace, reading the file gives back exactly
  that ledger. A guess answered with \<open>win\<close> or \<open>lose\<close> leaves the ledger and the file
  of \<open>record_result\<close> for the owner.
\<close>

theorem stats_only_grow:
  "(\<forall>r. map_of (stats st) name = Some r \<longrightarrow>
      (\<exists>r'. map_of (stats (fold serve reqs st)) name = Some r' \<and>
            wins r \<le> wins r' \<and> losses r \<le> losses r')) \<and>
   map_of (stats (record_result name ''win'' st)) name =
     Some (case map_of (stats st) name of
             None \<Rightarrow> \<lparr>wins = 1, losses = 0\<rparr>
           | Some r \<Rightarrow> r\<lparr>wins := wins r + 1\<rparr>) \<and>
   map_of (stats (record_result name ''lose'' st)) name =
     Some (case map_of (stats st) name of
             None \<Rightarrow> \<lparr>wins = 0, losses = 1\<rparr>
           | Some r \<Rightarrow> r\<lparr>losses := losses r + 1\<rparr>) \<and>
   (\<forall>other. other \<noteq> name \<longrightarrow>
      map_of (stats (record_result name res st)) other = map_of (stats st) other) \<and>
   scores_txt (record_result name res st) =
     Some (concat (map (\<lambda>e. fst e @ '';'' @ str_of_int (wins (snd e)) @ '';'' @
                              str_of_int (losses (snd e)) @ [CHR 0x0A])
                       (stats (record_result name res st)))) \<and>
   (distinct (map fst (stats st)) \<and>
    (\<forall>n\<in>fst ` set (stats (record_result name res st)).
        CHR '';'' \<notin> set n \<and> CHR 0x0A \<notin> set n \<and> CHR 0x0D \<notin> set n \<and>
        (n = [] \<or> \<not> py_isspace (hd n))) \<longrightarrow>
      load_stats (scores_txt (record_result name res st)) =
        Inr (stats (record_result name res st))) \<and>
   (\<forall>g gid guess resp st'.
      games st gid = Some g \<and> check_guess_endpoint gid guess st = (Inr resp, st') \<and>
      result resp \<in> {''win'', ''lose''} \<longrightarrow>
        stats st' = stats (record_result (player_name g) (result resp) st) \<and>
        scores_txt st' = scores_txt (record_result (player_name g) (result resp) st) \<and>
        scores_txt st' =
          Some (concat (map (\<lambda>e. fst e @ '';'' @ str_of_int (wins (snd e)) @ '';'' @
                                   str_of_int (losses (snd e)) @ [CHR 0x0A])
                            (stats st'))))"
proof -
  have grow: "\<forall>r. map_of (stats st) name = Some r \<longrightarrow>
      (\<exists>r'. map_of (stats (fold serve reqs st)) name = Some r' \<and>
            wins r \<le> wins r' \<and> losses r \<le> losses r')"
    using stats_after_requests by blast
  have win: "map_of (stats (record_result name ''win'' st)) name =
     Some (case map_of (stats st) name of
             None \<Rightarrow> \<lparr>wins = 1, losses = 0\<rparr>
           | Some r \<Rightarrow> r\<lparr>wins := wins r + 1\<rparr>)"
    by (simp add: map_of_record_result Let_def split: option.splits)
  have lose: "map_of (stats (record_result name ''lose'' st)) name =
     Some (case map_of (stats st) name of
             None \<Rightarrow> \<lparr>wins = 0, losses = 1\<rparr>
           | Some r \<Rightarrow> r\<lparr>losses := losses r + 1\<rparr>)"
    by (simp add: map_of_record_result Let_def split: option.splits)
  have others: "\<forall>other. other \<noteq> name \<longrightarrow>
      map_of (stats (record_result name res st)) other = map_of (stats st) other"
    by (simp add: map_of_record_result)
  have saved: "scores_txt (record_result name res st) =
     Some (concat (map (\<lambda>e. fst e @ '';'' @ str_of_int (wins (snd e)) @ '';'' @
                              str_of_int (losses (snd e)) @ [CHR 0x0A])
                       (stats (record_result name res st))))"
    by (simp only: scores_txt_record_result ledger_text_lines)
  have read_back: "distinct (map fst (stats st)) \<and>
    (\<forall>n\<in>fst ` set (stats (record_result name res st)).
        CHR '';'' \<notin> set n \<and> CHR 0x0A \<notin> set n \<and> CHR 0x0D \<notin> set n \<and>
        (n = [] \<or> \<not> py_isspace (hd n))) \<longrightarrow>
      load_stats (scores_txt (record_result name res st)) =
        Inr (stats (record_result name res st))"
    using record_result_file_read_back by blast
  have served: "\<forall>g gid guess resp st'.
      games st gid = Some g \<and> check_guess_endpoint gid guess st = (Inr resp, st') \<and>
      result resp \<in> {''win'', ''lose''} \<longrightarrow>
        stats st' = stats (record_result (player_name g) (result resp) st) \<and>
        scores_txt st' = scores_txt (record_result (player_name g) (result resp) st) \<and>
        scores_txt st' =
          Some (concat (map (\<lambda>e. fst e @ '';'' @ str_of_int (wins (snd e)) @ '';'' @
                                   str_of_int (losses (snd e)) @ [CHR 0x0A])
                            (stats st')))"
  proof (intro allI impI)
    fix g gid guess resp st'
    assume h: "games st gid = Some g \<and> check_guess_endpoint gid guess st = (Inr resp, st') \<and>
      result resp \<in> {''win'', ''lose''}"
    then have a: "games st gid = Some g"
      and b: "check_guess_endpoint gid guess st = (Inr resp, st')"
      and c: "result resp \<in> {''win'', ''lose''}" by simp_all
    from check_guess_endpoint_records [OF a b c]
    have s: "stats st' = stats (record_result (player_name g) (result resp) st)"
      and f: "scores_txt st' = Some (ledger_text (stats st'))" by simp_all
    from s f have "scores_txt st' = scores_txt (record_result (player_name g) (result resp) st)"
      by (simp add: scores_txt_record_result)
    moreover from f have "scores_txt st' =
          Some (concat (map (\<lambda>e. fst e @ '';'' @ str_of_int (wins (snd e)) @ '';'' @
                                   str_of_int (losses (snd e)) @ [CHR 0x0A])
                            (stats st')))"
      by (simp only: ledger_text_lines)
    ultimately show "stats st' = stats (record_result (player_name g) (result resp) st) \<and>
        scores_txt st' = scores_txt (record_result (player_name g) (result resp) st) \<and>
        scores_txt st' =
          Some (concat (map (\<lambda>e. fst e @ '';'' @ str_of_int (wins (snd e)) @ '';'' @
                                   str_of_int (losses (snd e)) @ [CHR 0x0A])
                            (stats st')))"
      using s by blast
  qed
  from grow win lose others saved read_back served show ?thesis
    by (intro conjI)
qed

theorem stats_only_grow_witness:
  "map_of (stats two_player_state) ''bob'' = Some \<lparr>wins = 0, losses = 0\<rparr> \<and>
   (\<exists>r'. map_of (stats (fold serve [CheckGuess ''g1'' 7, GetStats ''amy''] two_player_state))
           ''bob'' = Some r' \<and> 0 \<le> wins r' \<and> 0 \<le> losses r') \<and>
   map_of (stats (record_result ''bob'' ''win'' two_player_state)) ''bob'' =
     Some \<lparr>wins = 1, losses = 0\<rparr> \<and>
   ''amy'' \<noteq> ''bob'' \<and>
   map_of (stats (record_result ''bob'' ''win'' two_player_state)) ''amy'' =
     Some \<lparr>wins = 0, losses = 0\<rparr> \<and>
   games two_player_state ''g1'' = Some started_game \<and>
   stats (snd (check_guess_endpoint ''g1'' 7 two_player_state)) =
     [(''bob'', \<lparr>wins = 1, losses = 0\<rparr>), (''amy'', \<lparr>wins = 0, losses = 0\<rparr>)] \<and>
   scores_txt (record_result ''bob'' ''win'' two_player_state) =
     Some (''bob;1;0'' @ [CHR 0x0A] @ ''amy;0;0'' @ [CHR 0x0A]) \<and>
   scores_txt (snd (check_guess_endpoint ''g1'' 7 two_player_state)) =
     Some (''bob;1;0'' @ [CHR 0x0A] @ ''amy;0;0'' @ [CHR 0x0A]) \<and>
   distinct (map fst (stats two_player_state)) \<and>
   load_stats (scores_txt (record_result ''bob'' ''win'' two_player_state)) =
     Inr [(''bob'', \<lparr>wins = 1, losses = 0\<rparr>), (''amy'', \<lparr>wins = 0, losses = 0\<rparr>)]"
proof -
  note t = stats_only_grow [of two_player_state "''bob''"
      "[CheckGuess ''g1'' 7, GetStats ''amy'']" "''win''"]
  have a: "map_of (stats two_player_state) ''bob'' = Some \<lparr>wins = 0, losses = 0\<rparr>"
    and b: "map_of (stats two_player_state) ''amy'' = Some \<lparr>wins = 0, losses = 0\<rparr>"
    and c: "''amy'' \<noteq> ''bob''"
    and d: "games two_player_state ''g1'' = Some started_game"
    and dist: "distinct (map fst (stats two_player_state))"
    by (simp_all add: two_player_state_eq)
  have e: "check_guess_endpoint ''g1'' 7 two_player_state =
      (Inr \<lparr>result = ''win'', attempts_left = 4, correct_number = Some 7\<rparr>,
       snd (check_guess_endpoint ''g1'' 7 two_player_state))"
    by (simp add: check_guess_endpoint_def get_game_or_404_def d apply_guess_to_game_def
        started_game_def check_guess_def Let_def)
  from t [THEN conjunct1, rule_format, OF a]
  have g1: "\<exists>r'. map_of (stats (fold serve [CheckGuess ''g1'' 7, GetStats ''amy'']
         two_player_state)) ''bob'' = Some r' \<and> 0 \<le> wins r' \<and> 0 \<le> losses r'"
    by simp
  from t [THEN conjunct2, THEN conjunct1] a
  have g2: "map_of (stats (record_result ''bob'' ''win'' two_player_state)) ''bob'' =
     Some \<lparr>wins = 1, losses = 0\<rparr>"
    by simp
  from t [THEN conjunct2, THEN conjunct2, THEN conjunct2, THEN conjunct1, rule_format, OF c] b
  have g3: "map_of (stats (record_result ''bob'' ''win'' two_player_state)) ''amy'' =
     Some \<lparr>wins = 0, losses = 0\<rparr>"
    by simp
  from t [THEN conjunct2, THEN conjunct2, THEN conjunct2, THEN conjunct2, THEN conjunct1]
  have g5: "scores_txt (record_result ''bob'' ''win'' two_player_state) =
     Some (''bob;1;0'' @ [CHR 0x0A] @ ''amy;0;0'' @ [CHR 0x0A])"
    by (simp add: stats_bob_wins str_of_int_0_1)
  have names: "\<forall>n\<in>fst ` set (stats (record_result ''bob'' ''win'' two_player_state)).
        CHR '';'' \<notin> set n \<and> CHR 0x0A \<notin> set n \<and> CHR 0x0D \<notin> set n \<and>
        (n = [] \<or> \<not> py_isspace (hd n))"
    by (simp add: stats_bob_wins py_isspace_def)
  from t [THEN conjunct2, THEN conjunct2, THEN conjunct2, THEN conjunct2, THEN conjunct2,
      THEN conjunct1, THEN mp, OF conjI [OF dist names]]
  have g6: "load_stats (scores_txt (record_result ''bob'' ''win'' two_player_state)) =
     Inr [(''bob'', \<lparr>wins = 1, losses = 0\<rparr>), (''amy'', \<lparr>wins = 0, losses = 0\<rparr>)]"
    by (simp add: stats_bob_wins)
  have h: "result \<lparr>result = ''win'', attempts_left = 4, correct_number = Some 7\<rparr>
      \<in> {''win'', ''lose''}"
    by simp
  note served = t [THEN conjunct2, THEN conjunct2, THEN conjunct2, THEN conjunct2,
      THEN conjunct2, THEN conjunct2, rule_format, OF conjI [OF d conjI [OF e h]]]
  from served [THEN conjunct1]
  have g4: "stats (snd (check_guess_endpoint ''g1'' 7 two_player_state)) =
     [(''bob'', \<lparr>wins = 1, losses = 0\<rparr>), (''amy'', \<lparr>wins = 0, losses = 0\<rparr>)]"
    by (simp add: started_game_def stats_bob_wins)
  from served [THEN conjunct2, THEN conjunct2] g4
  have g7: "scores_txt (snd (check_guess_endpoint ''g1'' 7 two_player_state)) =
     Some (''bob;1;0'' @ [CHR 0x0A] @ ''amy;0;0'' @ [CHR 0x0A])"
    by (simp add: str_of_int_0_1)
  from a c d dist g1 g2 g3 g4 g5 g6 g7 show ?thesis
    by (intro conjI)
qed

end
